theory Spec2Isabelle
  imports Complex_Main "HOL-Library.AList"
begin

section \<open>Text primitives\<close>

text \<open>
  Python text is modelled as \<open>string\<close>, a list of 8-bit characters read as the code
  points U+0000 to U+00FF. \<open>str.lower\<close> maps A to Z and the upper-case letters of the
  Latin-1 block to their lower-case partners and leaves every other character alone.
\<close>

fun py_lower_char :: "char \<Rightarrow> char" where
  "py_lower_char (Char b0 b1 b2 b3 b4 b5 b6 b7) =
     (let n = (of_char (Char b0 b1 b2 b3 b4 b5 b6 b7) :: nat) in
      if (65 \<le> n \<and> n \<le> 90) \<or> (192 \<le> n \<and> n \<le> 222 \<and> n \<noteq> 215)
      then Char b0 b1 b2 b3 b4 True b6 b7 else Char b0 b1 b2 b3 b4 b5 b6 b7)"

definition lower :: "string \<Rightarrow> string" where
  "lower s = map py_lower_char s"

text \<open>
  \<open>a.startswith(p)\<close> is \<open>startswith p a\<close> and Python's \<open>p in a\<close> on text is
  \<open>contains p a\<close>.
\<close>

fun startswith :: "string \<Rightarrow> string \<Rightarrow> bool" where
  "startswith [] a = True"
| "startswith (p # ps) [] = False"
| "startswith (p # ps) (c # cs) = (p = c \<and> startswith ps cs)"

fun contains :: "string \<Rightarrow> string \<Rightarrow> bool" where
  "contains p [] = (p = [])"
| "contains p (c # cs) = (startswith p (c # cs) \<or> contains p cs)"

text \<open>
  White space as \<open>str.split()\<close> and the regular expression class \<open>\s\<close> see it:
  tab to carriage return, the four separators U+001C to U+001F, the blank, U+0085
  and the no-break space.
\<close>

definition is_space :: "char \<Rightarrow> bool" where
  "is_space c =
     (let n = (of_char c :: nat)
      in (9 \<le> n \<and> n \<le> 13) \<or> (28 \<le> n \<and> n \<le> 32) \<or> n = 133 \<or> n = 160)"

text \<open>\<open>split_acc cur s\<close> collects the words of \<open>s\<close>, with \<open>cur\<close> the word being read.\<close>

fun split_acc :: "string \<Rightarrow> string \<Rightarrow> string list" where
  "split_acc cur [] = (if cur = [] then [] else [cur])"
| "split_acc cur (c # cs) =
     (if is_space c then (if cur = [] then split_acc [] cs else cur # split_acc [] cs)
      else split_acc (cur @ [c]) cs)"

definition split :: "string \<Rightarrow> string list" where
  "split s = split_acc [] s"

text \<open>
  \<open>str.isdigit\<close> accepts the ten decimal digits and the superscripts one, two and
  three; \<open>int\<close> and the class \<open>\d\<close> accept the decimal digits only.
\<close>

definition is_decimal_char :: "char \<Rightarrow> bool" where
  "is_decimal_char c = (let n = (of_char c :: nat) in 48 \<le> n \<and> n \<le> 57)"

definition is_digit_char :: "char \<Rightarrow> bool" where
  "is_digit_char c =
     (let n = (of_char c :: nat) in (48 \<le> n \<and> n \<le> 57) \<or> n = 178 \<or> n = 179 \<or> n = 185)"

definition isdigit :: "string \<Rightarrow> bool" where
  "isdigit s = (s \<noteq> [] \<and> list_all is_digit_char s)"

definition digits_value :: "string \<Rightarrow> int" where
  "digits_value s = foldl (\<lambda>acc c. 10 * acc + (int (of_char c) - 48)) 0 s"

datatype error =
    KeyError string
  | IndexingError
  | IndexError
  | ValueError
  | Unmodelled_regex

definition py_int :: "string \<Rightarrow> error + int" where
  "py_int s = (if s \<noteq> [] \<and> list_all is_decimal_char s then Inr (digits_value s)
               else Inl ValueError)"

text \<open>
  \<open>Series.str.contains(pat, case=False, na=False)\<close> compiles \<open>pat\<close> as a regular
  expression. A pattern without metacharacters matches exactly where it occurs as a
  substring, letter case ignored; that is what is modelled. A pattern with a
  metacharacter is outside the model, and the call then yields \<open>Unmodelled_regex\<close>.
\<close>

definition regex_literal :: "string \<Rightarrow> bool" where
  "regex_literal pat =
     list_all (\<lambda>c. c \<notin> set [CHR ''.'', CHR ''^'', CHR ''$'', CHR ''*'', CHR ''+'', CHR ''?'',
       CHR ''{'', CHR ''}'', CHR ''['', CHR '']'', CHR 0x5C, CHR ''|'', CHR ''('', CHR '')'']) pat"

definition str_contains :: "string \<Rightarrow> string \<Rightarrow> bool" where
  "str_contains pat s = contains (lower pat) (lower s)"

text \<open>
  \<open>re.search(r'Singapore\s+(\d{6})', address)\<close>: the leftmost place where the word
  Singapore is followed by white space and six decimal digits; the result is the
  group of six digits.
\<close>

definition match_postal_at :: "string \<Rightarrow> string option" where
  "match_postal_at s =
     (if startswith ''Singapore'' s then
        let rest = drop 9 s;
            after = dropWhile is_space rest
        in if length after < length rest \<and> 6 \<le> length after
              \<and> list_all is_decimal_char (take 6 after)
           then Some (take 6 after) else None
      else None)"

fun re_search_postal :: "string \<Rightarrow> string option" where
  "re_search_postal [] = None"
| "re_search_postal (c # cs) =
     (case match_postal_at (c # cs) of
        Some g \<Rightarrow> Some g
      | None \<Rightarrow> re_search_postal cs)"

section \<open>The postal distance heuristic\<close>

text \<open>
  \<open>MedicalAgent.calculate_postal_distance\<close>. Python's \<open>//\<close> and \<open>%\<close> round towards
  minus infinity, as \<open>div\<close> and \<open>mod\<close> on \<open>int\<close> do. The result is an \<open>int\<close> in the
  same-sector branch and a \<open>float\<close> otherwise; both are read as the rational number
  they denote. The sector table is the dictionary \<open>area_distances\<close>, keyed by the
  pair \<open>tuple(sorted([area1, area2]))\<close>.
\<close>

definition area_distances :: "((int \<times> int) \<times> int) list" where
  "area_distances =
    [((1, 2), 1), ((1, 3), 2), ((1, 4), 3), ((1, 5), 4), ((1, 6), 5),
     ((1, 7), 6), ((1, 8), 7), ((1, 9), 8), ((1, 10), 9),
     ((75, 76), 1), ((75, 77), 2), ((75, 78), 3), ((75, 79), 4),
     ((79, 80), 1), ((80, 81), 1), ((81, 82), 1),
     ((10, 11), 1), ((11, 12), 1), ((12, 13), 1), ((13, 14), 1),
     ((14, 15), 1), ((15, 16), 1),
     ((46, 47), 1), ((47, 48), 1), ((48, 49), 1), ((49, 50), 1),
     ((50, 51), 1), ((51, 52), 1),
     ((60, 61), 1), ((61, 62), 1), ((62, 63), 1), ((63, 64), 1),
     ((64, 65), 1), ((65, 66), 1), ((66, 67), 1), ((67, 68), 1),
     ((68, 69), 1),
     ((53, 54), 1), ((54, 55), 1), ((55, 56), 1), ((56, 57), 1),
     ((57, 58), 1), ((58, 59), 1)]"

definition calculate_postal_distance :: "int \<Rightarrow> int \<Rightarrow> rat" where
  "calculate_postal_distance postal1 postal2 =
     (let area1 = postal1 div 10000;
          area2 = postal2 div 10000
      in if area1 = area2 then of_int \<bar>postal1 - postal2\<bar>
         else
           let area_pair = (min area1 area2, max area1 area2);
               base_distance =
                 (case map_of area_distances area_pair of
                    Some hops \<Rightarrow> hops * 10000
                  | None \<Rightarrow> \<bar>area1 - area2\<bar> * 10000);
               sub_distance = of_int \<bar>postal1 mod 10000 - postal2 mod 10000\<bar> / 100
           in of_int base_distance + sub_distance)"

section \<open>Tables\<close>

text \<open>
  A row of a \<open>DataFrame\<close> is its cells, keyed by column name, all of them text as
  \<open>load_data\<close> leaves them. The number stored under the key \<open>_distance\<close> by the
  postal search is kept in a field of its own. A frame is its column names and its
  rows, each with its index label. \<open>load_data\<close> yields frames labelled 0, 1, 2, ...;
  labels are taken to be distinct.
\<close>

record row =
  cells :: "(string \<times> string) list"
  distance :: "rat option"

record dataframe =
  columns :: "string list"
  rows :: "(nat \<times> row) list"

text \<open>\<open>str(row.get(k, ''))\<close>, and the cell of column \<open>k\<close> in a row of \<open>df[k]\<close>.\<close>

definition cell :: "row \<Rightarrow> string \<Rightarrow> string" where
  "cell r k = (case map_of (cells r) k of Some v \<Rightarrow> v | None \<Rightarrow> [])"

definition labels :: "dataframe \<Rightarrow> nat list" where
  "labels df = map fst (rows df)"

text \<open>\<open>DataFrame.empty\<close>: one of the two axes has length zero.\<close>

definition df_empty :: "dataframe \<Rightarrow> bool" where
  "df_empty df = (rows df = [] \<or> columns df = [])"

text \<open>
  A boolean \<open>Series\<close> is a list of labelled truth values.
  \<open>pd.Series([False] * n)\<close> is labelled 0 to n - 1.
\<close>

type_synonym mask = "(nat \<times> bool) list"

definition series_false :: "nat \<Rightarrow> mask" where
  "series_false n = map (\<lambda>i. (i, False)) [0..<n]"

definition col_contains :: "dataframe \<Rightarrow> string \<Rightarrow> string \<Rightarrow> error + mask" where
  "col_contains df col pat =
     (if regex_literal pat
      then Inr (map (\<lambda>(l, r). (l, str_contains pat (cell r col))) (rows df))
      else Inl Unmodelled_regex)"

text \<open>
  \<open>left | right\<close> on two boolean \<open>Series\<close> works label by label on the union of the
  two indexes. A label missing on the right counts as \<open>False\<close> there; a label
  missing on the left gives \<open>False\<close> whatever the right operand holds.
\<close>

definition mask_or :: "mask \<Rightarrow> mask \<Rightarrow> mask" where
  "mask_or left right =
     map (\<lambda>l. (l, case map_of left l of
                    None \<Rightarrow> False
                  | Some a \<Rightarrow> a \<or> (case map_of right l of Some b \<Rightarrow> b | None \<Rightarrow> False)))
       (map fst left @ filter (\<lambda>l. map_of left l = None) (map fst right))"

definition mask_any :: "mask \<Rightarrow> bool" where
  "mask_any m = list_ex snd m"

text \<open>
  \<open>df[m]\<close> with a boolean \<open>Series\<close>: the mask is read at the labels of the frame,
  and a label of the frame that the mask lacks raises \<open>IndexingError\<close>.
\<close>

definition df_filter :: "dataframe \<Rightarrow> mask \<Rightarrow> error + dataframe" where
  "df_filter df m =
     (if list_all (\<lambda>l. map_of m l \<noteq> None) (labels df)
      then Inr (df\<lparr>rows := filter (\<lambda>(l, r). map_of m l = Some True) (rows df)\<rparr>)
      else Inl IndexingError)"

text \<open>
  The loop shared by the filter stages: for each pair of a column and a pattern, if
  the frame has the column, its matches are or-ed into the mask.
\<close>

fun or_matches :: "dataframe \<Rightarrow> (string \<times> string) list \<Rightarrow> mask \<Rightarrow> error + mask" where
  "or_matches df [] acc = Inr acc"
| "or_matches df ((col, pat) # rest) acc =
     (if col \<in> set (columns df) then
        (case col_contains df col pat of
           Inl e \<Rightarrow> Inl e
         | Inr matches \<Rightarrow> or_matches df rest (mask_or acc matches))
      else or_matches df rest acc)"

section \<open>The query plan\<close>

text \<open>
  What \<open>think\<close> returns. A key that is absent has the default \<open>plan.get\<close> gives
  it; an absent filter and an empty one are both the empty text.
\<close>

record plan =
  intent :: string
  keyword :: string
  specialty :: string
  languages :: string
  area :: string
  reasoning :: string

section \<open>The structured filter pipeline\<close>

definition specialty_corrections :: "(string \<times> string) list" where
  "specialty_corrections =
    [(''General Practitioner'', ''General Medicine''),
     (''GP'', ''General Medicine''),
     (''Family Medicine'', ''Family & Community Medicine''),
     (''Paediatric'', ''Family & Community Medicine''),
     (''Pediatric'', ''Family & Community Medicine''),
     (''ENT'', ''Otolaryngology''),
     (''Orthopaedic'', ''Orthopaedic Surgery''),
     (''Orthopedic'', ''Orthopaedic Surgery'')]"

definition fallback_specialties :: "string list" where
  "fallback_specialties =
    [''Family & Community Medicine'', ''General Medicine'', ''Emergency Medicine'',
     ''Internal Medicine'']"

definition search_columns :: "string list" where
  "search_columns = [''Specialty'', ''Designation'', ''Services'']"

text \<open>Lines 240 and 241: the filter value after the correction table.\<close>

definition corrected_specialty :: "string \<Rightarrow> string" where
  "corrected_specialty raw =
     (case map_of specialty_corrections raw of Some c \<Rightarrow> c | None \<Rightarrow> raw)"

definition specialty_stage :: "dataframe \<Rightarrow> string \<Rightarrow> error + dataframe" where
  "specialty_stage target_df raw =
     (let specialty_filter = corrected_specialty raw;
          n = length (rows target_df)
      in if lower specialty_filter \<in> set [''paediatric'', ''pediatric''] then
           (case or_matches target_df (map (\<lambda>fallback. (''Specialty'', fallback))
                   fallback_specialties) (series_false n) of
              Inl e \<Rightarrow> Inl e
            | Inr fallback_matches \<Rightarrow>
               (case df_filter target_df fallback_matches of
                  Inl e \<Rightarrow> Inl e
                | Inr filtered_df \<Rightarrow>
                   if df_empty filtered_df then
                     (case or_matches target_df
                             (map (\<lambda>col. (col, specialty_filter)) search_columns)
                             (series_false n) of
                        Inl e \<Rightarrow> Inl e
                      | Inr specialty_matches \<Rightarrow> df_filter target_df specialty_matches)
                   else Inr filtered_df))
         else
           (case or_matches target_df (map (\<lambda>col. (col, specialty_filter)) search_columns)
                   (series_false n) of
              Inl e \<Rightarrow> Inl e
            | Inr specialty_matches \<Rightarrow> df_filter target_df specialty_matches))"

definition language_stage :: "dataframe \<Rightarrow> string \<Rightarrow> error + dataframe" where
  "language_stage filtered_df raw =
     (if raw \<noteq> [] \<and> ''Languages'' \<in> set (columns filtered_df) then
        let lang = (if lower raw \<in> set [''chinese'', ''mandarin''] then ''Mandarin'' else raw)
        in (case col_contains filtered_df ''Languages'' lang of
              Inl e \<Rightarrow> Inl e
            | Inr m \<Rightarrow> df_filter filtered_df m)
      else Inr filtered_df)"

text \<open>The loop over \<open>iterrows\<close> that collects the clinics with a postal code.\<close>

fun clinic_distances :: "int \<Rightarrow> (nat \<times> row) list \<Rightarrow> row list" where
  "clinic_distances query_postal [] = []"
| "clinic_distances query_postal ((idx, r) # rest) =
     (case re_search_postal (cell r ''Address'') of
        Some g \<Rightarrow>
          r\<lparr>distance := Some (calculate_postal_distance query_postal (digits_value g))\<rparr>
            # clinic_distances query_postal rest
      | None \<Rightarrow> clinic_distances query_postal rest)"

text \<open>The sort key \<open>x['_distance']\<close>.\<close>

definition dist_key :: "row \<Rightarrow> rat" where
  "dist_key r = (case distance r of Some d \<Rightarrow> d | None \<Rightarrow> 0)"

text \<open>
  \<open>list.sort\<close> is stable, as \<open>sort_key\<close> is. \<open>pd.DataFrame(closest_clinics)\<close> has
  the keys of the dictionaries as columns and fresh labels; \<open>pd.DataFrame()\<close> has
  neither columns nor rows.
\<close>

definition postal_stage :: "dataframe \<Rightarrow> string \<Rightarrow> error + dataframe" where
  "postal_stage filtered_df loc_key =
     (case py_int loc_key of
        Inl e \<Rightarrow> Inl e
      | Inr query_postal \<Rightarrow>
         let found = clinic_distances query_postal (rows filtered_df)
         in if found \<noteq> [] then
              let closest_clinics = take 20 (sort_key dist_key found)
              in Inr \<lparr>columns = (if ''_distance'' \<in> set (columns filtered_df)
                                then columns filtered_df
                                else columns filtered_df @ [''_distance'']),
                      rows = enumerate 0 closest_clinics\<rparr>
            else Inr \<lparr>columns = [], rows = []\<rparr>)"

definition nearby_areas :: "(string \<times> string list) list" where
  "nearby_areas =
    [(''bedok'', [''tampines'', ''pasir ris'', ''changi'']),
     (''tampines'', [''bedok'', ''pasir ris'', ''sengkang'']),
     (''yishun'', [''woodlands'', ''sembawang'', ''ang mo kio'']),
     (''woodlands'', [''yishun'', ''sembawang'', ''choa chu kang'']),
     (''jurong west'', [''jurong east'', ''choa chu kang'', ''bukit batok'']),
     (''sengkang'', [''punggol'', ''tampines'', ''serangoon'']),
     (''punggol'', [''sengkang'', ''tampines'', ''serangoon'']),
     (''ang mo kio'', [''yishun'', ''serangoon'', ''bishan'']),
     (''serangoon'', [''ang mo kio'', ''sengkang'', ''bishan''])]"

definition area_stage :: "dataframe \<Rightarrow> string \<Rightarrow> error + dataframe" where
  "area_stage filtered_df loc_key =
     (case or_matches filtered_df [(''Area'', loc_key), (''Address'', loc_key)]
             (series_false (length (rows filtered_df))) of
        Inl e \<Rightarrow> Inl e
      | Inr direct \<Rightarrow>
         (case (if \<not> mask_any direct then
                  (case map_of nearby_areas (lower loc_key) of
                     Some nearby_list \<Rightarrow>
                       or_matches filtered_df (map (\<lambda>nearby. (''Area'', nearby)) nearby_list)
                         direct
                   | None \<Rightarrow> Inr direct)
                else Inr direct) of
            Inl e \<Rightarrow> Inl e
          | Inr location_matches \<Rightarrow> df_filter filtered_df location_matches))"

definition doctor_location_stage :: "dataframe \<Rightarrow> string \<Rightarrow> error + dataframe" where
  "doctor_location_stage filtered_df loc_key =
     (let col_to_search = (if ''Area'' \<in> set (columns filtered_df) then ''Area'' else ''Address'')
      in if col_to_search \<in> set (columns filtered_df) then
           (case col_contains filtered_df col_to_search loc_key of
              Inl e \<Rightarrow> Inl e
            | Inr m \<Rightarrow> df_filter filtered_df m)
         else Inr filtered_df)"

definition location_stage :: "string \<Rightarrow> dataframe \<Rightarrow> string \<Rightarrow> error + dataframe" where
  "location_stage intent_name filtered_df loc_key =
     (if loc_key \<noteq> [] \<and> intent_name = ''find_clinic'' then
        (if isdigit loc_key \<and> length loc_key = 6 then postal_stage filtered_df loc_key
         else area_stage filtered_df loc_key)
      else if loc_key \<noteq> [] \<and> intent_name = ''find_doctor'' then
        doctor_location_stage filtered_df loc_key
      else Inr filtered_df)"

text \<open>Lines 221 to 354 of \<open>search\<close>: the three filter stages, one after the other.\<close>

definition filter_pipeline :: "plan \<Rightarrow> dataframe \<Rightarrow> error + dataframe" where
  "filter_pipeline p target_df =
     (case (if specialty p \<noteq> [] then specialty_stage target_df (specialty p)
            else Inr target_df) of
        Inl e \<Rightarrow> Inl e
      | Inr by_specialty \<Rightarrow>
         (case language_stage by_specialty (languages p) of
            Inl e \<Rightarrow> Inl e
          | Inr by_language \<Rightarrow> location_stage (intent p) by_language (area p)))"

section \<open>Ranking and assembly\<close>

text \<open>
  The clinic loop of lines 370 to 383: each row goes to the first of the three lists
  whose test it passes, and the lists keep the order of the rows.
\<close>

fun clinic_tiers ::
  "string \<Rightarrow> row list \<Rightarrow> row list \<times> row list \<times> row list \<Rightarrow> row list \<times> row list \<times> row list"
where
  "clinic_tiers loc_key [] acc = acc"
| "clinic_tiers loc_key (r # rest) (exact_area, exact_address, nearby_area) =
     (let area_text = lower (cell r ''Area'');
          address = lower (cell r ''Address'');
          loc_lower = lower loc_key
      in if contains loc_lower area_text then
           clinic_tiers loc_key rest (exact_area @ [r], exact_address, nearby_area)
         else if contains loc_lower address then
           clinic_tiers loc_key rest (exact_area, exact_address @ [r], nearby_area)
         else
           clinic_tiers loc_key rest (exact_area, exact_address, nearby_area @ [r]))"

definition rank_clinics :: "string \<Rightarrow> row list \<Rightarrow> row list" where
  "rank_clinics loc_key rs =
     (case clinic_tiers loc_key rs ([], [], []) of
        (exact_area, exact_address, nearby_area) \<Rightarrow>
          take 10 exact_area @ take 5 exact_address @ take 5 nearby_area)"

text \<open>
  The four scorers of the rapidfuzz library are parameters of the model: each maps
  two texts to a score. A score is read as the rational number it denotes, and the
  weights 1.3, 1.2 and 1.1 as 13/10, 12/10 and 11/10.
\<close>

record scorers =
  token_set_ratio :: "string \<Rightarrow> string \<Rightarrow> rat"
  partial_ratio :: "string \<Rightarrow> string \<Rightarrow> rat"
  token_sort_ratio :: "string \<Rightarrow> string \<Rightarrow> rat"
  ratio :: "string \<Rightarrow> string \<Rightarrow> rat"

type_synonym match = "string \<times> rat \<times> nat"

text \<open>
  \<open>process.extract(query, choices, limit=20, scorer=f)\<close>: every choice with its score
  and its position, best score first, equal scores in the order of the choices, cut
  to the limit.
\<close>

definition process_extract :: "(string \<Rightarrow> string \<Rightarrow> rat) \<Rightarrow> string \<Rightarrow> string list \<Rightarrow> nat \<Rightarrow> match list" where
  "process_extract scorer query choices limit =
     take limit (sort_key (\<lambda>(name, score, idx). - score)
       (map (\<lambda>(idx, name). (name, scorer query name, idx)) (enumerate 0 choices)))"

text \<open>Strategy 4, lines 406 to 426.\<close>

definition best_word_score :: "(string \<Rightarrow> string \<Rightarrow> rat) \<Rightarrow> string \<Rightarrow> string list \<Rightarrow> rat" where
  "best_word_score fuzz_ratio kw name_words =
     foldl (\<lambda>best nw.
        if 3 \<le> length kw then
          (if contains kw nw \<or> contains nw kw then max best 80
           else max best (fuzz_ratio kw nw))
        else best) 0 name_words"

definition list_min :: "rat list \<Rightarrow> rat" where
  "list_min xs = foldl min (hd xs) (tl xs)"

definition multi_word_matches :: "(string \<Rightarrow> string \<Rightarrow> rat) \<Rightarrow> string \<Rightarrow> string list \<Rightarrow> match list" where
  "multi_word_matches fuzz_ratio kws names =
     (let keywords_words = split (lower kws)
      in concat (map (\<lambda>(i, name).
           let name_words = split (lower name);
               word_match_scores = map (\<lambda>kw. best_word_score fuzz_ratio kw name_words)
                                     keywords_words
           in if 0 < length word_match_scores \<and> 35 < list_min word_match_scores
              then [(name, sum_list word_match_scores / of_nat (length word_match_scores), i)]
              else []) (enumerate 0 names)))"

text \<open>
  Score fusion, lines 429 to 443. The dictionary \<open>all_matches\<close> is an association
  list in insertion order; an entry is the weighted score, the position and the raw
  score.
\<close>

datatype strategy = token_set | partial | token_sort | multi_word

definition weighted :: "strategy \<Rightarrow> rat \<Rightarrow> rat" where
  "weighted strategy_name score =
     (if strategy_name = multi_word \<and> 50 < score then score * (13 / 10)
      else if strategy_name = partial \<and> 80 < score then score * (12 / 10)
      else if strategy_name = token_set \<and> 90 < score then score * (11 / 10)
      else score)"

type_synonym fused = "(string \<times> (rat \<times> nat \<times> rat)) list"

definition fuse_one :: "strategy \<Rightarrow> fused \<Rightarrow> match \<Rightarrow> fused" where
  "fuse_one strategy_name all_matches m =
     (case m of (name, score, idx) \<Rightarrow>
        if 25 < score then
          (let weighted_score = weighted strategy_name score
           in case map_of all_matches name of
                None \<Rightarrow> AList.update name (weighted_score, idx, score) all_matches
              | Some (best, _, _) \<Rightarrow>
                  if best < weighted_score
                  then AList.update name (weighted_score, idx, score) all_matches
                  else all_matches)
        else all_matches)"

definition fuse :: "(strategy \<times> match list) list \<Rightarrow> fused" where
  "fuse runs = foldl (\<lambda>all_matches (strategy_name, matches).
                      foldl (fuse_one strategy_name) all_matches matches) [] runs"

text \<open>The test of lines 457 and 458 that puts a name into the exact tier.\<close>

definition is_exact :: "string \<Rightarrow> string \<Rightarrow> bool" where
  "is_exact kws name =
     list_ex (\<lambda>part. lower kws = part \<or> startswith (lower kws) part) (split (lower name))"

definition sorted_matches :: "fused \<Rightarrow> match list" where
  "sorted_matches all_matches =
     map (\<lambda>(name, weighted_score, idx, original_score). (name, weighted_score, idx))
       (sort_key (\<lambda>(name, weighted_score, idx, original_score). - weighted_score) all_matches)"

definition exact_matches :: "string \<Rightarrow> fused \<Rightarrow> match list" where
  "exact_matches kws all_matches =
     filter (\<lambda>(name, score, idx). is_exact kws name) (sorted_matches all_matches)"

definition fuzzy_matches :: "string \<Rightarrow> fused \<Rightarrow> match list" where
  "fuzzy_matches kws all_matches =
     filter (\<lambda>(name, score, idx). \<not> is_exact kws name) (sorted_matches all_matches)"

definition final_matches :: "string \<Rightarrow> fused \<Rightarrow> match list" where
  "final_matches kws all_matches =
     (if 3 \<le> length (exact_matches kws all_matches) then take 5 (exact_matches kws all_matches)
      else
        let high_quality_fuzzy =
              filter (\<lambda>(name, score, idx). 60 < score) (fuzzy_matches kws all_matches)
        in exact_matches kws all_matches @ take 3 high_quality_fuzzy)"

text \<open>\<open>filtered_df.iloc[idx]\<close> for each selected match, in order.\<close>

fun iloc_all :: "row list \<Rightarrow> match list \<Rightarrow> error + row list" where
  "iloc_all rs [] = Inr []"
| "iloc_all rs ((name, score, idx) # rest) =
     (if idx < length rs then
        (case iloc_all rs rest of
           Inl e \<Rightarrow> Inl e
         | Inr found \<Rightarrow> Inr (rs ! idx # found))
      else Inl IndexError)"

text \<open>The scan of lines 478 to 483, which stops once it holds ten rows.\<close>

fun containment_scan :: "string \<Rightarrow> row list \<Rightarrow> row list \<Rightarrow> row list" where
  "containment_scan kws [] results = results"
| "containment_scan kws (r # rest) results =
     (if contains (lower kws) (lower (cell r ''Name'')) then
        (if 10 \<le> length (results @ [r]) then results @ [r]
         else containment_scan kws rest (results @ [r]))
      else containment_scan kws rest results)"

definition all_matches_of :: "scorers \<Rightarrow> string \<Rightarrow> string list \<Rightarrow> fused" where
  "all_matches_of sc kws names =
     fuse [(token_set, process_extract (token_set_ratio sc) kws names 20),
           (partial, process_extract (partial_ratio sc) kws names 20),
           (token_sort, process_extract (token_sort_ratio sc) kws names 20),
           (multi_word, multi_word_matches (ratio sc) kws names)]"

definition fuzzy_name_search :: "scorers \<Rightarrow> string \<Rightarrow> dataframe \<Rightarrow> error + row list" where
  "fuzzy_name_search sc kws filtered_df =
     (if ''Name'' \<in> set (columns filtered_df) then
        let rs = map snd (rows filtered_df);
            names = map (\<lambda>r. cell r ''Name'') rs;
            all_matches = all_matches_of sc kws names
        in (case iloc_all rs (take 5 (final_matches kws all_matches)) of
              Inl e \<Rightarrow> Inl e
            | Inr results \<Rightarrow>
                if results = [] then Inr (containment_scan kws rs []) else Inr results)
      else Inl (KeyError ''Name''))"

definition rank :: "scorers \<Rightarrow> plan \<Rightarrow> dataframe \<Rightarrow> error + row list" where
  "rank sc p filtered_df =
     (if \<not> df_empty filtered_df then
        (if intent p = ''find_clinic'' then
           (if area p \<noteq> [] then Inr (rank_clinics (area p) (map snd (rows filtered_df)))
            else Inr (take 15 (map snd (rows filtered_df))))
         else if keyword p \<noteq> [] \<and> 1 < length (keyword p) then
           fuzzy_name_search sc (keyword p) filtered_df
         else
           Inr (take (if intent p = ''find_doctor'' then 10 else 15)
                  (map snd (rows filtered_df))))
      else Inr [])"

section \<open>The entry point\<close>

text \<open>
  \<open>MedicalAgent.search\<close>. The answer of \<open>think\<close> is an argument: \<open>None\<close> stands for
  no plan or an empty one. A frame that failed to load is \<open>None\<close>. The second
  component of the result is the plan, or one of the two notices returned early.
\<close>

datatype meta = Plan plan | Data_not_loaded | Think_failed

definition search ::
  "scorers \<Rightarrow> dataframe option \<Rightarrow> dataframe option \<Rightarrow> plan option \<Rightarrow> error + (row list \<times> meta)"
where
  "search sc df_c df_d thought =
     (case (df_c, df_d) of
        (Some clinics, Some doctors) \<Rightarrow>
          (case thought of
             None \<Rightarrow> Inr ([], Think_failed)
           | Some p \<Rightarrow>
               let target_df = (if intent p = ''find_clinic'' then clinics else doctors)
               in (case filter_pipeline p target_df of
                     Inl e \<Rightarrow> Inl e
                   | Inr filtered_df \<Rightarrow>
                       (case rank sc p filtered_df of
                          Inl e \<Rightarrow> Inl e
                        | Inr results \<Rightarrow> Inr (results, Plan p))))
      | _ \<Rightarrow> Inr ([], Data_not_loaded))"

section \<open>Descriptions used in the properties\<close>

text \<open>The postal code read from a row's address, and the row with its distance attached.\<close>

definition postal_code_of :: "row \<Rightarrow> string option" where
  "postal_code_of r = re_search_postal (cell r ''Address'')"

definition with_distance :: "int \<Rightarrow> row \<Rightarrow> row" where
  "with_distance query_postal r =
     r\<lparr>distance := Some (calculate_postal_distance query_postal
                          (digits_value (the (postal_code_of r))))\<rparr>"

text \<open>
  The address pattern in the words of the specification: at position \<open>n\<close> of the
  text stands the word Singapore, then white space, then the six decimal digits
  \<open>g\<close>. A text is marked when it has such a place; its first marked code is the
  one at the leftmost such place.
\<close>

definition marked_code_at :: "string \<Rightarrow> nat \<Rightarrow> string \<Rightarrow> bool" where
  "marked_code_at s n g =
     (\<exists>ws post. drop n s = ''Singapore'' @ ws @ g @ post
        \<and> ws \<noteq> [] \<and> list_all is_space ws
        \<and> length g = 6 \<and> list_all is_decimal_char g)"

definition marked_code :: "string \<Rightarrow> bool" where
  "marked_code s = (\<exists>n g. marked_code_at s n g)"

definition first_marked_code :: "string \<Rightarrow> string \<Rightarrow> bool" where
  "first_marked_code s g =
     (\<exists>n. marked_code_at s n g \<and> (\<forall>m<n. \<forall>g'. \<not> marked_code_at s m g'))"

text \<open>A mask without a true entry.\<close>

definition all_false :: "mask \<Rightarrow> bool" where
  "all_false m = (\<forall>(l, b)\<in>set m. \<not> b)"

text \<open>The neighbours the adjacency table lists for a location, none for an unknown one.\<close>

definition neighbours :: "string \<Rightarrow> string list" where
  "neighbours loc_key = (case map_of nearby_areas (lower loc_key) of Some ns \<Rightarrow> ns | None \<Rightarrow> [])"

text \<open>
  The pediatric stage as the specification words it: a row stays when one of the four
  fallback specialties occurs in its Specialty, Designation or Services.
\<close>

definition claimed_pediatric_stage :: "dataframe \<Rightarrow> dataframe" where
  "claimed_pediatric_stage df =
     df\<lparr>rows := filter (\<lambda>(l, r). \<exists>fallback\<in>set fallback_specialties. \<exists>col\<in>set search_columns.
                          col \<in> set (columns df) \<and> str_contains fallback (cell r col))
                  (rows df)\<rparr>"

text \<open>The list \<open>filtered_df['Name'].tolist()\<close>.\<close>

definition name_column :: "dataframe \<Rightarrow> string list" where
  "name_column df = map (\<lambda>r. cell r ''Name'') (map snd (rows df))"

text \<open>
  A match is placed when its position lies in the name list and holds its name; a
  fused dictionary is placed when each of its entries is.
\<close>

definition placed :: "string list \<Rightarrow> string \<Rightarrow> nat \<Rightarrow> bool" where
  "placed names name idx = (idx < length names \<and> names ! idx = name)"

definition fused_placed :: "string list \<Rightarrow> fused \<Rightarrow> bool" where
  "fused_placed names all_matches = (\<forall>(name, w, idx, s)\<in>set all_matches. placed names name idx)"

section \<open>Example data\<close>

definition mk_row :: "(string \<times> string) list \<Rightarrow> row" where
  "mk_row cs = \<lparr>cells = cs, distance = None\<rparr>"

text \<open>Scorers that give every pair of texts the score 0.\<close>

definition zero_scorers :: scorers where
  "zero_scorers = \<lparr>token_set_ratio = (\<lambda>a b. 0), partial_ratio = (\<lambda>a b. 0),
     token_sort_ratio = (\<lambda>a b. 0), ratio = (\<lambda>a b. 0)\<rparr>"

definition query :: "string \<Rightarrow> string \<Rightarrow> string \<Rightarrow> string \<Rightarrow> string \<Rightarrow> plan" where
  "query i k s l a =
     \<lparr>intent = i, keyword = k, specialty = s, languages = l, area = a, reasoning = []\<rparr>"

definition example_doctors :: dataframe where
  "example_doctors = \<lparr>columns = [''Name'', ''Specialty''],
     rows = [(0, mk_row [(''Name'', ''Low Huey Moon''), (''Specialty'', ''Cardiology'')]),
             (1, mk_row [(''Name'', ''Tan Wei Ming''), (''Specialty'', ''Dental'')])]\<rparr>"

definition example_clinics :: dataframe where
  "example_clinics = \<lparr>columns = [''Name'', ''Address'', ''Area''],
     rows = [(0, mk_row [(''Name'', ''A''),
                         (''Address'', ''Blk 526 Jurong West St 52 Singapore 640526''),
                         (''Area'', ''Jurong West'')]),
             (1, mk_row [(''Name'', ''B''), (''Address'', ''Blk 1 Tampines Ave 1''),
                         (''Area'', ''Tampines'')]),
             (2, mk_row [(''Name'', ''C''),
                         (''Address'', ''Blk 651 Jurong West St 61 Singapore 641651''),
                         (''Area'', ''Boon Lay'')])]\<rparr>"

definition pediatric_example :: dataframe where
  "pediatric_example = \<lparr>columns = [''Name'', ''Specialty'', ''Services''],
     rows = [(0, mk_row [(''Name'', ''A''), (''Specialty'', ''Cardiology''),
                         (''Services'', ''General Medicine clinic'')]),
             (1, mk_row [(''Name'', ''B''), (''Specialty'', ''General Medicine''),
                         (''Services'', ''Health screening'')])]\<rparr>"

definition fallback_example :: dataframe where
  "fallback_example = \<lparr>columns = [''Name''],
     rows = [(0, mk_row [(''Name'', ''Bowen Tan'')]),
             (1, mk_row [(''Name'', ''Howard Lim'')]),
             (2, mk_row [(''Name'', ''Lowell Ng'')]),
             (3, mk_row [(''Name'', ''Rowena Lee'')]),
             (4, mk_row [(''Name'', ''Gowri Nair'')]),
             (5, mk_row [(''Name'', ''Powell Chan'')])]\<rparr>"

definition low_example :: dataframe where
  "low_example = \<lparr>columns = [''Name''],
     rows = [(0, mk_row [(''Name'', ''Low Huey Moon'')]),
             (1, mk_row [(''Name'', ''Low Kim Seng'')]),
             (2, mk_row [(''Name'', ''Tan Wei Ming'')]),
             (3, mk_row [(''Name'', ''Low Ah Kow'')])]\<rparr>"

definition nameless_doctors :: dataframe where
  "nameless_doctors = \<lparr>columns = [''Specialty''],
     rows = [(0, mk_row [(''Specialty'', ''Dental'')])]\<rparr>"

definition language_clinics :: dataframe where
  "language_clinics = \<lparr>columns = [''Name'', ''Area'', ''Languages''],
     rows = [(0, mk_row [(''Name'', ''A''), (''Area'', ''Bedok''), (''Languages'', ''English'')]),
             (1, mk_row [(''Name'', ''B''), (''Area'', ''Bedok''), (''Languages'', ''Mandarin'')])]\<rparr>"

section \<open>Properties\<close>

text \<open>
  C3. The postal distance heuristic is symmetric:
  \<open>calculate_postal_distance a b\<close> and \<open>calculate_postal_distance b a\<close> are the same
  number for all integers, hence for every pair of 6-digit codes. The sorted pair
  used as lookup key, the absolute differences and the sector comparison are all
  unchanged when the arguments are swapped.
\<close>

theorem calculate_postal_distance_symmetric:
  "calculate_postal_distance a b = calculate_postal_distance b a"
proof -
  have key: "(min (a div 10000) (b div 10000), max (a div 10000) (b div 10000))
           = (min (b div 10000) (a div 10000), max (b div 10000) (a div 10000))"
    by (simp add: min.commute max.commute)
  have d1: "\<bar>a - b\<bar> = \<bar>b - a\<bar>" by simp
  have d2: "\<bar>a div 10000 - b div 10000\<bar> = \<bar>b div 10000 - a div 10000\<bar>" by simp
  have d3: "\<bar>a mod 10000 - b mod 10000\<bar> = \<bar>b mod 10000 - a mod 10000\<bar>" by simp
  show ?thesis
    unfolding calculate_postal_distance_def Let_def key d1 d2 d3
    by (simp add: eq_commute)
qed

lemma foldl_min_le: "foldl min (a::rat) xs \<le> a \<and> (\<forall>x\<in>set xs. foldl min a xs \<le> x)"
proof (induction xs arbitrary: a)
  case Nil
  show ?case by simp
next
  case (Cons y ys)
  have ih: "foldl min (min a y) ys \<le> min a y \<and> (\<forall>x\<in>set ys. foldl min (min a y) ys \<le> x)"
    using Cons.IH [of "min a y"] .
  then show ?case by auto
qed

lemma list_min_le: "x \<in> set xs \<Longrightarrow> list_min xs \<le> x"
proof (cases xs)
  case Nil
  assume "x \<in> set xs"
  with Nil show ?thesis by simp
next
  case (Cons a as)
  assume "x \<in> set xs"
  with Cons foldl_min_le [of a as] show ?thesis
    by (auto simp: list_min_def)
qed

lemma best_word_score_short: "length kw < 3 \<Longrightarrow> best_word_score f kw nws = 0"
proof -
  assume short: "length kw < 3"
  have "foldl (\<lambda>best nw. if 3 \<le> length kw then
          (if contains kw nw \<or> contains nw kw then max best 80 else max best (f kw nw))
        else best) b nws = b" for b
    using short by (induction nws arbitrary: b) simp_all
  then show ?thesis by (simp add: best_word_score_def)
qed

text \<open>
  C9. In the per-word strategy, a keyword with a word shorter than three characters
  reports no candidate at all: the best score of that word stays 0, so the smallest
  per-word score cannot exceed 35, whatever the character-similarity scorer returns.
\<close>

theorem multi_word_short_keyword:
  assumes "w \<in> set (split (lower kws))" and "length w < 3"
  shows "multi_word_matches fuzz_ratio kws names = []"
proof -
  have "\<not> 35 < list_min (map (\<lambda>kw. best_word_score fuzz_ratio kw nws) (split (lower kws)))" for nws
  proof -
    have "best_word_score fuzz_ratio w nws
            \<in> set (map (\<lambda>kw. best_word_score fuzz_ratio kw nws) (split (lower kws)))"
      using assms(1) by simp
    then have "list_min (map (\<lambda>kw. best_word_score fuzz_ratio kw nws) (split (lower kws)))
                 \<le> best_word_score fuzz_ratio w nws"
      by (rule list_min_le)
    then show ?thesis using best_word_score_short [OF assms(2)] by simp
  qed
  then show ?thesis
    by (simp add: multi_word_matches_def Let_def split_def case_prod_unfold)
qed

theorem multi_word_short_keyword_witness:
  "''jo'' \<in> set (split (lower ''Jo Smith'')) \<and> length ''jo'' < 3 \<and>
   multi_word_matches (\<lambda>a b. 100) ''Jo Smith'' [''Jo Smith'', ''John Smith''] = []"
  using multi_word_short_keyword [of "''jo''" "''Jo Smith''" "\<lambda>a b. 100" "[''Jo Smith'', ''John Smith'']"]
  by (simp add: split_def lower_def is_space_def)

lemma filter_pipeline_keyword: "filter_pipeline (p\<lparr>keyword := k\<rparr>) df = filter_pipeline p df"
  by (simp add: filter_pipeline_def cong: sum.case_cong)

text \<open>
  C10. A doctor query whose keyword has exactly one character never enters the name
  search. Its results are those of the same query without a keyword, and they are the
  first ten rows of the filtered frame, in order, for every filtered frame that has a
  column (a frame without columns counts as empty for \<open>DataFrame.empty\<close>).
\<close>

theorem single_character_keyword:
  assumes "intent p = ''find_doctor''" and "length (keyword p) = 1"
  shows "map_sum id fst (search sc df_c df_d (Some p))
           = map_sum id fst (search sc df_c df_d (Some (p\<lparr>keyword := []\<rparr>)))
       \<and> (\<forall>filtered_df. filter_pipeline p doctors = Inr filtered_df \<longrightarrow> columns filtered_df \<noteq> [] \<longrightarrow>
            search sc (Some clinics) (Some doctors) (Some p)
              = Inr (take 10 (map snd (rows filtered_df)), Plan p))"
proof -
  have r1: "rank sc p f = (if df_empty f then Inr [] else Inr (take 10 (map snd (rows f))))" for f
    using assms by (simp add: rank_def)
  have r2: "rank sc (p\<lparr>keyword := []\<rparr>) f = (if df_empty f then Inr [] else Inr (take 10 (map snd (rows f))))" for f
    using assms by (simp add: rank_def)
  have a: "map_sum id fst (search sc df_c df_d (Some p))
           = map_sum id fst (search sc df_c df_d (Some (p\<lparr>keyword := []\<rparr>)))"
    using assms(1)
    by (simp add: search_def r1 r2 filter_pipeline_keyword Let_def split: option.splits sum.splits)
  have b: "search sc (Some clinics) (Some doctors) (Some p)
              = Inr (take 10 (map snd (rows f)), Plan p)"
    if "filter_pipeline p doctors = Inr f" and "columns f \<noteq> []" for f
    using that assms(1) by (simp add: search_def r1 df_empty_def)
  show ?thesis using a b by blast
qed

theorem single_character_keyword_witness:
  "search zero_scorers (Some example_clinics) (Some example_doctors)
      (Some (query ''find_doctor'' ''L'' [] [] []))
    = Inr (map snd (rows example_doctors), Plan (query ''find_doctor'' ''L'' [] [] []))"
proof -
  have f: "filter_pipeline (query ''find_doctor'' ''L'' [] [] []) example_doctors = Inr example_doctors"
    by (simp add: filter_pipeline_def query_def language_stage_def location_stage_def)
  have c: "columns example_doctors \<noteq> []" by (simp add: example_doctors_def)
  have i: "intent (query ''find_doctor'' ''L'' [] [] []) = ''find_doctor''"
    and k: "length (keyword (query ''find_doctor'' ''L'' [] [] [])) = 1"
    by (simp_all add: query_def)
  from single_character_keyword [OF i k, of zero_scorers "Some example_clinics" "Some example_doctors" example_doctors example_clinics] f c
  show ?thesis by (simp add: example_doctors_def)
qed

lemma clinic_tiers_filter:
  "clinic_tiers loc rs (a, b, c) =
     (a @ filter (\<lambda>r. contains (lower loc) (lower (cell r ''Area''))) rs,
      b @ filter (\<lambda>r. \<not> contains (lower loc) (lower (cell r ''Area''))
                     \<and> contains (lower loc) (lower (cell r ''Address''))) rs,
      c @ filter (\<lambda>r. \<not> contains (lower loc) (lower (cell r ''Area''))
                     \<and> \<not> contains (lower loc) (lower (cell r ''Address''))) rs)"
  by (induction rs arbitrary: a b c) (simp_all add: Let_def)

text \<open>
  C5. For a clinic query with a location filter and a non-empty filtered frame, the
  result is the rows whose Area contains the filter, cut to 10, then the other rows
  whose Address contains it, cut to 5, then the remaining rows, cut to 5: each row is
  tested on its own, letter case ignored, and each tier keeps the order of the frame.
\<close>

theorem clinic_tiers_capped:
  assumes "intent p = ''find_clinic''" and "area p \<noteq> []" and "\<not> df_empty filtered_df"
  shows "\<exists>results. rank sc p filtered_df = Inr results
     \<and> results =
         take 10 (filter (\<lambda>r. contains (lower (area p)) (lower (cell r ''Area'')))
                    (map snd (rows filtered_df)))
       @ take 5 (filter (\<lambda>r. \<not> contains (lower (area p)) (lower (cell r ''Area''))
                              \<and> contains (lower (area p)) (lower (cell r ''Address'')))
                    (map snd (rows filtered_df)))
       @ take 5 (filter (\<lambda>r. \<not> contains (lower (area p)) (lower (cell r ''Area''))
                              \<and> \<not> contains (lower (area p)) (lower (cell r ''Address'')))
                    (map snd (rows filtered_df)))
     \<and> length results \<le> 20"
  using assms
  by (simp add: rank_def rank_clinics_def clinic_tiers_filter [of _ _ "[]" "[]" "[]", simplified])

theorem clinic_tiers_capped_witness:
  "rank zero_scorers (query ''find_clinic'' [] [] [] ''jurong'') example_clinics
     = Inr [snd (rows example_clinics ! 0), snd (rows example_clinics ! 2), snd (rows example_clinics ! 1)]"
proof -
  have i: "intent (query ''find_clinic'' [] [] [] ''jurong'') = ''find_clinic''"
    and a: "area (query ''find_clinic'' [] [] [] ''jurong'') \<noteq> []"
    and e: "\<not> df_empty example_clinics"
    by (simp_all add: query_def df_empty_def example_clinics_def)
  from clinic_tiers_capped [OF i a e, of zero_scorers]
  show ?thesis
    by (simp add: query_def example_clinics_def mk_row_def cell_def lower_def)
qed

lemma clinic_distances_filter:
  "clinic_distances q rs
     = map (with_distance q) (filter (\<lambda>r. postal_code_of r \<noteq> None) (map snd rs))"
  by (induction q rs rule: clinic_distances.induct)
     (auto simp: postal_code_of_def with_distance_def split: option.splits)

lemma six_decimals_isdigit:
  "list_all is_decimal_char s \<Longrightarrow> length s = 6 \<Longrightarrow> isdigit s \<and> py_int s = Inr (digits_value s)"
  by (auto simp: isdigit_def py_int_def list_all_iff is_decimal_char_def is_digit_char_def Let_def)

lemma match_postal_at_shape:
  "match_postal_at s = Some g \<Longrightarrow> length g = 6 \<and> list_all is_decimal_char g"
  by (auto simp: match_postal_at_def Let_def split: if_splits)

lemma re_search_postal_shape:
  "re_search_postal s = Some g \<Longrightarrow> length g = 6 \<and> list_all is_decimal_char g"
  by (induction s) (auto split: option.splits dest: match_postal_at_shape)

text \<open>The regular expression search finds exactly the first marked code.\<close>

lemma startswith_iff: "startswith p s \<longleftrightarrow> (\<exists>t. s = p @ t)"
  by (induction p s rule: startswith.induct) auto

lemma decimal_not_space: "is_decimal_char c \<Longrightarrow> \<not> is_space c"
  by (auto simp: is_decimal_char_def is_space_def Let_def)

lemma match_postal_at_iff:
  "match_postal_at s = Some g \<longleftrightarrow>
     (\<exists>ws post. s = ''Singapore'' @ ws @ g @ post
        \<and> ws \<noteq> [] \<and> list_all is_space ws
        \<and> length g = 6 \<and> list_all is_decimal_char g)"
proof
  assume m: "match_postal_at s = Some g"
  let ?rest = "drop 9 s"
  let ?ws = "takeWhile is_space ?rest"
  let ?after = "dropWhile is_space ?rest"
  from m have sw: "startswith ''Singapore'' s"
    by (auto simp: match_postal_at_def split: if_splits)
  then obtain t where t: "s = ''Singapore'' @ t" unfolding startswith_iff by blast
  then have rest: "?rest = t" by simp
  from m sw have c: "length ?after < length ?rest" "6 \<le> length ?after"
      "list_all is_decimal_char (take 6 ?after)" "g = take 6 ?after"
    by (auto simp: match_postal_at_def Let_def split: if_splits)
  have split: "?rest = ?ws @ ?after" by simp
  have ws_ne: "?ws \<noteq> []"
  proof
    assume "?ws = []"
    then have "?after = ?rest" using split by (metis append_Nil)
    with c(1) show False by simp
  qed
  have ws_sp: "list_all is_space ?ws"
    by (auto simp: list_all_iff dest: set_takeWhileD)
  have after: "?after = g @ drop 6 ?after" using c(4) by simp
  have "s = ''Singapore'' @ ?ws @ g @ drop 6 ?after"
    using t rest split after by (metis append_assoc)
  moreover have "length g = 6" using c(2,4) by simp
  ultimately show "\<exists>ws post. s = ''Singapore'' @ ws @ g @ post
        \<and> ws \<noteq> [] \<and> list_all is_space ws
        \<and> length g = 6 \<and> list_all is_decimal_char g"
    using ws_ne ws_sp c(3,4) by blast
next
  assume "\<exists>ws post. s = ''Singapore'' @ ws @ g @ post
        \<and> ws \<noteq> [] \<and> list_all is_space ws
        \<and> length g = 6 \<and> list_all is_decimal_char g"
  then obtain ws post where s: "s = ''Singapore'' @ ws @ g @ post"
    and ws: "ws \<noteq> []" "list_all is_space ws"
    and g: "length g = 6" "list_all is_decimal_char g" by blast
  have sw: "startswith ''Singapore'' s" unfolding startswith_iff using s by blast
  have rest: "drop 9 s = ws @ g @ post" using s by simp
  obtain c g' where gc: "g = c # g'" using g(1) by (cases g) auto
  then have "\<not> is_space c" using g(2) decimal_not_space by simp
  then have dg: "dropWhile is_space (g @ post) = g @ post" using gc by simp
  have "dropWhile is_space (ws @ g @ post) = dropWhile is_space (g @ post)"
    using ws(2) by (intro dropWhile_append2) (simp add: list_all_iff)
  then have after: "dropWhile is_space (drop 9 s) = g @ post" using rest dg by simp
  have "length (g @ post) < length (ws @ g @ post)" using ws(1) by (cases ws) auto
  then show "match_postal_at s = Some g"
    unfolding match_postal_at_def Let_def after
    using sw rest g by simp
qed

lemma marked_code_at_match: "marked_code_at s n g \<longleftrightarrow> match_postal_at (drop n s) = Some g"
  unfolding marked_code_at_def match_postal_at_iff ..

lemma re_search_postal_first:
  "re_search_postal s = Some g \<longleftrightarrow>
     (\<exists>n. match_postal_at (drop n s) = Some g \<and> (\<forall>m<n. match_postal_at (drop m s) = None))"
proof (induction s)
  case Nil
  have "match_postal_at [] = None" by (simp add: match_postal_at_def)
  then show ?case by simp
next
  case (Cons c cs)
  show ?case
  proof (cases "match_postal_at (c # cs)")
    case None
    have "(\<exists>n. match_postal_at (drop n (c # cs)) = Some g
              \<and> (\<forall>m<n. match_postal_at (drop m (c # cs)) = None))
        \<longleftrightarrow> (\<exists>k. match_postal_at (drop k cs) = Some g
              \<and> (\<forall>m<k. match_postal_at (drop m cs) = None))" (is "?L \<longleftrightarrow> ?R")
    proof
      assume ?L
      then obtain n where n: "match_postal_at (drop n (c # cs)) = Some g"
        "\<forall>m<n. match_postal_at (drop m (c # cs)) = None" by blast
      from n(1) None obtain k where k: "n = Suc k" by (cases n) auto
      have "match_postal_at (drop m cs) = None" if "m < k" for m
        using n(2) [rule_format, of "Suc m"] that k by simp
      with n(1) k show ?R by auto
    next
      assume ?R
      then obtain k where k: "match_postal_at (drop k cs) = Some g"
        "\<forall>m<k. match_postal_at (drop m cs) = None" by blast
      have "match_postal_at (drop m (c # cs)) = None" if "m < Suc k" for m
        using that k(2) None by (cases m) auto
      with k(1) show ?L by (intro exI [of _ "Suc k"]) simp
    qed
    with None Cons.IH show ?thesis by simp
  next
    case (Some g0)
    have "(\<exists>n. match_postal_at (drop n (c # cs)) = Some g
              \<and> (\<forall>m<n. match_postal_at (drop m (c # cs)) = None)) \<longleftrightarrow> g = g0"
    proof
      assume "\<exists>n. match_postal_at (drop n (c # cs)) = Some g
              \<and> (\<forall>m<n. match_postal_at (drop m (c # cs)) = None)"
      then obtain n where n: "match_postal_at (drop n (c # cs)) = Some g"
        "\<forall>m<n. match_postal_at (drop m (c # cs)) = None" by blast
      have "n = 0"
      proof (rule ccontr)
        assume "n \<noteq> 0"
        then have "match_postal_at (drop 0 (c # cs)) = None" using n(2) by blast
        with Some show False by simp
      qed
      with n(1) Some show "g = g0" by simp
    next
      assume "g = g0"
      with Some show "\<exists>n. match_postal_at (drop n (c # cs)) = Some g
              \<and> (\<forall>m<n. match_postal_at (drop m (c # cs)) = None)"
        by (intro exI [of _ 0]) simp
    qed
    with Some show ?thesis by auto
  qed
qed

lemma re_search_postal_none:
  "re_search_postal s = None \<longleftrightarrow> (\<forall>n. match_postal_at (drop n s) = None)"
proof (induction s)
  case Nil
  have "match_postal_at [] = None" by (simp add: match_postal_at_def)
  then show ?case by simp
next
  case (Cons c cs)
  have "(\<forall>n. match_postal_at (drop n (c # cs)) = None)
      \<longleftrightarrow> match_postal_at (c # cs) = None \<and> (\<forall>k. match_postal_at (drop k cs) = None)"
  proof
    assume a: "\<forall>n. match_postal_at (drop n (c # cs)) = None"
    have "match_postal_at (c # cs) = None" using a [rule_format, of 0] by simp
    moreover have "match_postal_at (drop k cs) = None" for k
      using a [rule_format, of "Suc k"] by simp
    ultimately show "match_postal_at (c # cs) = None \<and> (\<forall>k. match_postal_at (drop k cs) = None)"
      by blast
  next
    assume a: "match_postal_at (c # cs) = None \<and> (\<forall>k. match_postal_at (drop k cs) = None)"
    show "\<forall>n. match_postal_at (drop n (c # cs)) = None"
    proof
      fix n show "match_postal_at (drop n (c # cs)) = None" using a by (cases n) auto
    qed
  qed
  with Cons.IH show ?case by (auto split: option.splits)
qed

lemma postal_code_of_first:
  "postal_code_of r = Some g \<longleftrightarrow> first_marked_code (cell r ''Address'') g"
proof -
  have "(\<forall>g'. \<not> marked_code_at s m g') \<longleftrightarrow> match_postal_at (drop m s) = None" for s m
    unfolding marked_code_at_match by auto
  then show ?thesis
    unfolding postal_code_of_def first_marked_code_def re_search_postal_first marked_code_at_match
    by simp
qed

lemma postal_code_of_none:
  "postal_code_of r = None \<longleftrightarrow> \<not> marked_code (cell r ''Address'')"
  unfolding postal_code_of_def marked_code_def re_search_postal_none marked_code_at_match
  by auto

text \<open>
  C4. For a clinic query whose location filter is six decimal digits, the location
  stage succeeds. It keeps exactly the rows whose Address has the word Singapore
  followed by white space and six decimal digits, and drops every other row. To each
  kept row it attaches, as distance, the heuristic distance between the query code and
  the first such code of the address. The rows are sorted by that distance (rows of
  equal distance in their old order) and cut to the first 20. The distances ascend,
  and when no address is marked the result is an empty frame.
\<close>

theorem postal_code_search:
  assumes "list_all is_decimal_char loc_key" and "length loc_key = 6"
  shows "\<exists>out found. location_stage ''find_clinic'' filtered_df loc_key = Inr out
     \<and> list_all2 (\<lambda>r r0. \<exists>g. first_marked_code (cell r0 ''Address'') g
            \<and> r = r0\<lparr>distance := Some (calculate_postal_distance (digits_value loc_key)
                                          (digits_value g))\<rparr>)
          found
          (filter (\<lambda>r. marked_code (cell r ''Address'')) (map snd (rows filtered_df)))
     \<and> map snd (rows out) = take 20 (sort_key dist_key found)
     \<and> (\<forall>r\<in>set (map snd (rows out)). \<exists>r0\<in>set (map snd (rows filtered_df)). \<exists>g.
            first_marked_code (cell r0 ''Address'') g
          \<and> length g = 6 \<and> list_all is_decimal_char g
          \<and> cells r = cells r0
          \<and> distance r = Some (calculate_postal_distance (digits_value loc_key) (digits_value g)))
     \<and> sorted (map dist_key (map snd (rows out)))
     \<and> length (rows out) \<le> 20
     \<and> ((\<forall>r\<in>set (map snd (rows filtered_df)). \<not> marked_code (cell r ''Address''))
          \<longrightarrow> df_empty out)"
proof -
  let ?q = "digits_value loc_key"
  let ?rs = "map snd (rows filtered_df)"
  let ?marked = "filter (\<lambda>r. marked_code (cell r ''Address'')) ?rs"
  let ?found = "map (with_distance ?q) ?marked"
  let ?closest = "take 20 (sort_key dist_key ?found)"
  let ?out = "if ?found \<noteq> [] then
       \<lparr>columns = (if ''_distance'' \<in> set (columns filtered_df) then columns filtered_df
                   else columns filtered_df @ [''_distance'']),
        rows = enumerate 0 ?closest\<rparr>
     else \<lparr>columns = [], rows = []\<rparr>"
  let ?R = "\<lambda>r r0. \<exists>g. first_marked_code (cell r0 ''Address'') g
            \<and> r = r0\<lparr>distance := Some (calculate_postal_distance ?q (digits_value g))\<rparr>"
  have ne: "loc_key \<noteq> []" using assms(2) by auto
  have same_filter: "filter (\<lambda>r. postal_code_of r \<noteq> None) ?rs = ?marked"
    by (simp add: postal_code_of_none)
  have cd: "clinic_distances ?q (rows filtered_df) = ?found"
    unfolding clinic_distances_filter same_filter ..
  have stage: "location_stage ''find_clinic'' filtered_df loc_key = Inr ?out"
    using six_decimals_isdigit [OF assms] ne assms(2)
    by (simp add: location_stage_def postal_stage_def cd Let_def)
  have attach: "?R (with_distance ?q r0) r0" if "marked_code (cell r0 ''Address'')" for r0
  proof -
    from that have "postal_code_of r0 \<noteq> None" by (simp add: postal_code_of_none)
    then obtain g where g: "postal_code_of r0 = Some g" by auto
    then have "first_marked_code (cell r0 ''Address'') g" by (simp add: postal_code_of_first)
    with g show ?thesis by (auto simp: with_distance_def)
  qed
  have rel: "list_all2 ?R ?found ?marked"
    unfolding list_all2_map1 by (rule list_all2_same [THEN iffD2]) (auto intro: attach)
  have rows_out: "map snd (rows ?out) = ?closest"
    by (simp add: map_snd_enumerate)
  have subset: "set ?closest \<subseteq> set ?found"
    using set_take_subset [of 20 "sort_key dist_key ?found"] by simp
  have origin: "\<exists>r0\<in>set ?rs. \<exists>g.
            first_marked_code (cell r0 ''Address'') g
          \<and> length g = 6 \<and> list_all is_decimal_char g
          \<and> cells r = cells r0
          \<and> distance r = Some (calculate_postal_distance ?q (digits_value g))"
    if "r \<in> set ?closest" for r
  proof -
    from that subset have "r \<in> set ?found" by blast
    then obtain r0 where r0: "r0 \<in> set ?rs"
       "marked_code (cell r0 ''Address'')" "r = with_distance ?q r0" by auto
    from attach [OF r0(2)] obtain g where g: "first_marked_code (cell r0 ''Address'') g"
      "with_distance ?q r0 = r0\<lparr>distance := Some (calculate_postal_distance ?q (digits_value g))\<rparr>"
      by blast
    from g(1) have "postal_code_of r0 = Some g" by (simp add: postal_code_of_first)
    then have "length g = 6 \<and> list_all is_decimal_char g"
      using re_search_postal_shape by (simp add: postal_code_of_def)
    with r0 g show ?thesis by auto
  qed
  have srt: "sorted (map dist_key ?closest)"
    using sorted_sort_key [of dist_key ?found]
    by (simp add: take_map [symmetric] sorted_wrt_take)
  have len: "length (rows ?out) \<le> 20" by simp
  have none: "df_empty ?out" if "\<forall>r\<in>set ?rs. \<not> marked_code (cell r ''Address'')"
  proof -
    from that have "?marked = []" by (auto simp: filter_empty_conv)
    then show ?thesis by (simp add: df_empty_def)
  qed
  show ?thesis
    apply (rule exI [of _ ?out])
    apply (rule exI [of _ ?found])
    using stage rel rows_out origin srt len none by (simp only:) blast
qed

lemma first_marked_code_unique:
  "first_marked_code s g \<Longrightarrow> first_marked_code s g' \<Longrightarrow> g = g'"
  using postal_code_of_first [of "\<lparr>cells = [(''Address'', s)], distance = None\<rparr>"]
  by (simp add: cell_def) (metis option.inject)

theorem postal_code_search_witness:
  "list_all is_decimal_char ''641652'' \<and> length ''641652'' = 6 \<and>
   location_stage ''find_clinic'' example_clinics ''641652''
     = Inr \<lparr>columns = [''Name'', ''Address'', ''Area'', ''_distance''],
            rows = [(0, (snd (rows example_clinics ! 2))\<lparr>distance := Some 1\<rparr>),
                    (1, (snd (rows example_clinics ! 0))\<lparr>distance := Some 1126\<rparr>)]\<rparr> \<and>
   sorted [1, 1126 :: rat] \<and>
   marked_code_at ''Blk 651 Jurong West St 61 Singapore 641651'' 26 ''641651'' \<and>
   \<not> marked_code ''Blk 1 Tampines Ave 1''"
proof -
  have h1: "list_all is_decimal_char ''641652''" and h2: "length ''641652'' = 6"
    by (simp_all add: is_decimal_char_def)
  have run: "location_stage ''find_clinic'' example_clinics ''641652''
     = Inr \<lparr>columns = [''Name'', ''Address'', ''Area'', ''_distance''],
            rows = [(0, (snd (rows example_clinics ! 2))\<lparr>distance := Some 1\<rparr>),
                    (1, (snd (rows example_clinics ! 0))\<lparr>distance := Some 1126\<rparr>)]\<rparr>"
    by (simp add: location_stage_def postal_stage_def isdigit_def is_digit_char_def
          py_int_def is_decimal_char_def digits_value_def example_clinics_def mk_row_def
          cell_def match_postal_at_def is_space_def calculate_postal_distance_def
          dist_key_def enumerate_eq_zip)
  from postal_code_search [OF h1 h2, of example_clinics] obtain out found
    where out: "location_stage ''find_clinic'' example_clinics ''641652'' = Inr out"
      and srt: "sorted (map dist_key (map snd (rows out)))"
      and rel: "list_all2 (\<lambda>r r0. \<exists>g. first_marked_code (cell r0 ''Address'') g
            \<and> r = r0\<lparr>distance := Some (calculate_postal_distance (digits_value ''641652'')
                                          (digits_value g))\<rparr>)
          found
          (filter (\<lambda>r. marked_code (cell r ''Address'')) (map snd (rows example_clinics)))"
      and rows_out: "map snd (rows out) = take 20 (sort_key dist_key found)"
    by blast
  from out run srt have s: "sorted [1, 1126 :: rat]"
    by (simp add: dist_key_def)
  have at: "marked_code_at ''Blk 651 Jurong West St 61 Singapore 641651'' 26 ''641651''"
    unfolding marked_code_at_def
    by (rule exI [of _ "'' ''"], rule exI [of _ "[]"])
       (simp add: is_space_def is_decimal_char_def)
  have len: "length found = 2"
  proof -
    from out run have "length (rows out) = 2" by auto
    then have "length (take 20 (sort_key dist_key found)) = 2"
      using rows_out by (metis length_map)
    then show ?thesis by simp
  qed
  have "length (filter (\<lambda>r. marked_code (cell r ''Address'')) (map snd (rows example_clinics))) = 2"
    using list_all2_lengthD [OF rel] len by metis
  moreover have "marked_code (cell (snd (rows example_clinics ! 2)) ''Address'')"
    using at unfolding marked_code_def
    by (simp add: example_clinics_def mk_row_def cell_def) blast
  moreover have "marked_code (cell (snd (rows example_clinics ! 0)) ''Address'')"
  proof -
    have "marked_code_at ''Blk 526 Jurong West St 52 Singapore 640526'' 26 ''640526''"
      unfolding marked_code_at_def
      by (rule exI [of _ "'' ''"], rule exI [of _ "[]"])
         (simp add: is_space_def is_decimal_char_def)
    then show ?thesis unfolding marked_code_def
      by (simp add: example_clinics_def mk_row_def cell_def) blast
  qed
  ultimately have "\<not> marked_code (cell (snd (rows example_clinics ! 1)) ''Address'')"
    by (auto simp: example_clinics_def split: if_splits)
  then have nm: "\<not> marked_code ''Blk 1 Tampines Ave 1''"
    by (simp add: example_clinics_def mk_row_def cell_def)
  from h1 h2 run s at nm show ?thesis by blast
qed


subsection \<open>Masks and label alignment\<close>

lemma map_of_keyed:
  "map_of (map (\<lambda>k. (k, f k)) ks) l = (if l \<in> set ks then Some (f l) else None)"
  by (induction ks) auto

lemma map_of_mask_or:
  "map_of (mask_or left right) l =
     (case map_of left l of
        Some a \<Rightarrow> Some (a \<or> map_of right l = Some True)
      | None \<Rightarrow> (case map_of right l of None \<Rightarrow> None | Some b \<Rightarrow> Some False))"
proof (cases "map_of left l")
  case None
  then have nl: "l \<notin> fst ` set left" by (simp add: map_of_eq_None_iff)
  show ?thesis
  proof (cases "map_of right l")
    case n2: None
    then have "l \<notin> fst ` set right" by (simp add: map_of_eq_None_iff)
    with nl None n2 show ?thesis
      unfolding mask_or_def map_of_keyed by auto
  next
    case (Some b)
    then have "l \<in> fst ` set right" by (meson domI domIff map_of_eq_None_iff)
    with None Some show ?thesis
      unfolding mask_or_def map_of_keyed by auto
  qed
next
  case (Some a)
  then have "l \<in> fst ` set left" by (meson domI domIff map_of_eq_None_iff)
  with Some show ?thesis
    unfolding mask_or_def map_of_keyed by (auto split: option.splits)
qed

lemma map_of_series_false:
  "map_of (series_false n) l = (if l < n then Some False else None)"
  unfolding series_false_def map_of_keyed by simp

lemma map_of_col_mask:
  assumes "distinct (labels df)" and "(l, r) \<in> set (rows df)"
  shows "map_of (map (\<lambda>(l, r). (l, g r)) (rows df)) l = Some (g r)"
proof -
  have "distinct (map fst (map (\<lambda>(l, r). (l, g r)) (rows df)))"
    using assms(1) by (simp add: labels_def comp_def case_prod_unfold)
  moreover have "(l, g r) \<in> set (map (\<lambda>(l, r). (l, g r)) (rows df))"
    using assms(2) by force
  ultimately show ?thesis by (rule map_of_is_SomeI)
qed

lemma map_of_col_mask_None:
  "map_of (map (\<lambda>(l, r). (l, g r)) (rows df)) l = None \<longleftrightarrow> l \<notin> set (labels df)"
  by (force simp: map_of_eq_None_iff labels_def)

text \<open>The result of the or-loop when the mask already has every label of the frame.\<close>

lemma or_matches_full:
  assumes "distinct (labels df)"
    and "\<forall>(col, pat)\<in>set pairs. regex_literal pat"
    and "\<forall>l\<in>set (labels df). map_of acc l \<noteq> None"
  shows "\<exists>m. or_matches df pairs acc = Inr m
     \<and> (\<forall>l\<in>set (labels df). map_of m l \<noteq> None)
     \<and> (\<forall>(l, r)\<in>set (rows df).
          (map_of m l = Some True) =
          (map_of acc l = Some True
           \<or> (\<exists>(col, pat)\<in>set pairs. col \<in> set (columns df) \<and> str_contains pat (cell r col))))"
  using assms(2,3)
proof (induction pairs arbitrary: acc)
  case Nil
  then show ?case by auto
next
  case (Cons cp pairs)
  obtain col pat where cp: "cp = (col, pat)" by (cases cp)
  have lit: "regex_literal pat" and lits: "\<forall>(col, pat)\<in>set pairs. regex_literal pat"
    using Cons.prems(1) cp by auto
  show ?case
  proof (cases "col \<in> set (columns df)")
    case False
    from Cons.IH [OF lits Cons.prems(2)] False cp show ?thesis by auto
  next
    case True
    let ?m1 = "map (\<lambda>(l, r). (l, str_contains pat (cell r col))) (rows df)"
    let ?acc = "mask_or acc ?m1"
    have full: "\<forall>l\<in>set (labels df). map_of ?acc l \<noteq> None"
      using Cons.prems(2) by (auto simp: map_of_mask_or split: option.splits)
    from Cons.IH [OF lits full] obtain m where m: "or_matches df pairs ?acc = Inr m"
      "\<forall>l\<in>set (labels df). map_of m l \<noteq> None"
      "\<forall>(l, r)\<in>set (rows df).
          (map_of m l = Some True) =
          (map_of ?acc l = Some True
           \<or> (\<exists>(col, pat)\<in>set pairs. col \<in> set (columns df) \<and> str_contains pat (cell r col)))"
      by blast
    have step: "(map_of ?acc l = Some True) =
          (map_of acc l = Some True \<or> str_contains pat (cell r col))"
      if "(l, r) \<in> set (rows df)" for l r
    proof -
      from that have "l \<in> set (labels df)" by (force simp: labels_def)
      with Cons.prems(2) obtain a where a: "map_of acc l = Some a" by auto
      show ?thesis using a map_of_col_mask [OF assms(1) that, of "\<lambda>r. str_contains pat (cell r col)"]
        by (auto simp: map_of_mask_or)
    qed
    have run: "or_matches df (cp # pairs) acc = Inr m"
      using True lit m(1) cp by (simp add: col_contains_def)
    show ?thesis
      apply (rule exI [of _ m])
      using run m(2) m(3) step True cp by fastforce
  qed
qed

lemma all_false_mask_or: "all_false left \<Longrightarrow> all_false right \<Longrightarrow> all_false (mask_or left right)"
  unfolding all_false_def mask_or_def
  by (auto split: option.splits dest!: map_of_SomeD)

lemma all_false_lookup: "all_false m \<Longrightarrow> map_of m l \<noteq> Some True"
  unfolding all_false_def by (auto dest!: map_of_SomeD)

lemma all_false_any: "all_false m \<Longrightarrow> \<not> mask_any m"
  unfolding all_false_def mask_any_def by (auto simp: list_ex_iff)

lemma or_matches_no_hit:
  assumes "distinct (labels df)"
    and "\<forall>(col, pat)\<in>set pairs. regex_literal pat"
    and "\<forall>(col, pat)\<in>set pairs. col \<in> set (columns df) \<longrightarrow>
           (\<forall>(l, r)\<in>set (rows df). \<not> str_contains pat (cell r col))"
    and "all_false acc"
    and "(\<forall>l\<in>set (labels df). map_of acc l \<noteq> None)
         \<or> (\<exists>(col, pat)\<in>set pairs. col \<in> set (columns df))"
  shows "\<exists>m. or_matches df pairs acc = Inr m \<and> all_false m
     \<and> (\<forall>l\<in>set (labels df). map_of m l \<noteq> None)"
  using assms(2-5)
proof (induction pairs arbitrary: acc)
  case Nil
  then show ?case by auto
next
  case (Cons cp pairs)
  obtain col pat where cp: "cp = (col, pat)" by (cases cp)
  have lit: "regex_literal pat" and lits: "\<forall>(col, pat)\<in>set pairs. regex_literal pat"
    using Cons.prems(1) cp by auto
  have nohits: "\<forall>(col, pat)\<in>set pairs. col \<in> set (columns df) \<longrightarrow>
           (\<forall>(l, r)\<in>set (rows df). \<not> str_contains pat (cell r col))"
    using Cons.prems(2) by auto
  show ?case
  proof (cases "col \<in> set (columns df)")
    case False
    have "(\<forall>l\<in>set (labels df). map_of acc l \<noteq> None)
         \<or> (\<exists>(col, pat)\<in>set pairs. col \<in> set (columns df))"
      using Cons.prems(4) False cp by auto
    from Cons.IH [OF lits nohits Cons.prems(3) this] False cp show ?thesis by auto
  next
    case True
    let ?m1 = "map (\<lambda>(l, r). (l, str_contains pat (cell r col))) (rows df)"
    let ?acc = "mask_or acc ?m1"
    have f1: "all_false ?m1"
      using Cons.prems(2) True cp unfolding all_false_def by auto
    have af: "all_false ?acc" using Cons.prems(3) f1 by (rule all_false_mask_or)
    have full: "\<forall>l\<in>set (labels df). map_of ?acc l \<noteq> None"
    proof
      fix l assume "l \<in> set (labels df)"
      then have "map_of ?m1 l \<noteq> None" using map_of_col_mask_None [of _ df l] by simp
      then show "map_of ?acc l \<noteq> None"
        by (auto simp: map_of_mask_or split: option.splits)
    qed
    from Cons.IH [OF lits nohits af] full obtain m where
      "or_matches df pairs ?acc = Inr m" "all_false m"
      "\<forall>l\<in>set (labels df). map_of m l \<noteq> None" by blast
    then show ?thesis using True lit cp by (simp add: col_contains_def)
  qed
qed

lemma df_filter_full:
  assumes "\<forall>l\<in>set (labels df). map_of m l \<noteq> None"
    and "\<forall>(l, r)\<in>set (rows df). (map_of m l = Some True) = P l r"
  shows "df_filter df m = Inr (df\<lparr>rows := filter (\<lambda>(l, r). P l r) (rows df)\<rparr>)"
proof -
  have "filter (\<lambda>(l, r). map_of m l = Some True) (rows df) = filter (\<lambda>(l, r). P l r) (rows df)"
    using assms(2) by (intro filter_cong) auto
  then show ?thesis using assms(1) by (simp add: df_filter_def list_all_iff)
qed

lemma nearby_areas_literal: "list_all (\<lambda>(k, ns). list_all regex_literal ns) nearby_areas"
  by (simp add: nearby_areas_def regex_literal_def)

lemma nearby_literal:
  assumes "map_of nearby_areas k = Some ns"
  shows "\<forall>n\<in>set ns. regex_literal n"
proof -
  from assms have "(k, ns) \<in> set nearby_areas" by (rule map_of_SomeD)
  with nearby_areas_literal have "list_all regex_literal ns"
    unfolding list_all_iff by blast
  then show ?thesis by (simp add: list_all_iff)
qed

text \<open>
  C6. For a clinic query with an area name as location filter (labels distinct, the
  name free of regular-expression metacharacters, the frame with an Area column): when
  no row matches the name in Area or Address, the stage keeps exactly the rows whose
  Area contains one of the neighbours that the adjacency table lists for the
  lower-cased name, letter case ignored. With the filter Bedok and a frame where only
  one clinic lies in Tampines, that clinic is the result.
\<close>

theorem adjacency_fallback:
  assumes "distinct (labels filtered_df)"
    and "loc_key \<noteq> []" and "\<not> (isdigit loc_key \<and> length loc_key = 6)"
    and "regex_literal loc_key"
    and "''Area'' \<in> set (columns filtered_df)"
    and "\<forall>(l, r)\<in>set (rows filtered_df).
           \<not> str_contains loc_key (cell r ''Area'')
         \<and> (''Address'' \<in> set (columns filtered_df) \<longrightarrow> \<not> str_contains loc_key (cell r ''Address''))"
  shows "location_stage ''find_clinic'' filtered_df loc_key =
     Inr (filtered_df\<lparr>rows :=
            filter (\<lambda>(l, r). \<exists>nearby\<in>set (neighbours loc_key). str_contains nearby (cell r ''Area''))
              (rows filtered_df)\<rparr>)"
proof -
  let ?df = filtered_df
  let ?n = "length (rows ?df)"
  have stage: "location_stage ''find_clinic'' ?df loc_key = area_stage ?df loc_key"
    using assms(2,3) by (auto simp: location_stage_def)
  have lits: "\<forall>(col, pat)\<in>set [(''Area'', loc_key), (''Address'', loc_key)]. regex_literal pat"
    using assms(4) by simp
  have nohit: "\<forall>(col, pat)\<in>set [(''Area'', loc_key), (''Address'', loc_key)].
      col \<in> set (columns ?df) \<longrightarrow> (\<forall>(l, r)\<in>set (rows ?df). \<not> str_contains pat (cell r col))"
    using assms(6) by auto
  have af0: "all_false (series_false ?n)"
    by (simp add: all_false_def series_false_def)
  have some: "(\<forall>l\<in>set (labels ?df). map_of (series_false ?n) l \<noteq> None)
      \<or> (\<exists>(col, pat)\<in>set [(''Area'', loc_key), (''Address'', loc_key)]. col \<in> set (columns ?df))"
    using assms(5) by simp
  from or_matches_no_hit [OF assms(1) lits nohit af0 some] obtain direct where
    direct: "or_matches ?df [(''Area'', loc_key), (''Address'', loc_key)] (series_false ?n) = Inr direct"
    and af: "all_false direct"
    and full: "\<forall>l\<in>set (labels ?df). map_of direct l \<noteq> None"
    by blast
  have nany: "\<not> mask_any direct" using af by (rule all_false_any)
  let ?pairs = "map (\<lambda>nearby. (''Area'', nearby)) (neighbours loc_key)"
  have plit: "\<forall>(col, pat)\<in>set ?pairs. regex_literal pat"
  proof (cases "map_of nearby_areas (lower loc_key)")
    case None
    then show ?thesis by (simp add: neighbours_def)
  next
    case (Some ns)
    from nearby_literal [OF Some] Some show ?thesis by (auto simp: neighbours_def)
  qed
  from or_matches_full [OF assms(1) plit full] obtain m where
    m: "or_matches ?df ?pairs direct = Inr m"
    and mfull: "\<forall>l\<in>set (labels ?df). map_of m l \<noteq> None"
    and mval: "\<forall>(l, r)\<in>set (rows ?df).
          (map_of m l = Some True) =
          (map_of direct l = Some True
           \<or> (\<exists>(col, pat)\<in>set ?pairs. col \<in> set (columns ?df) \<and> str_contains pat (cell r col)))"
    by blast
  have mval': "\<forall>(l, r)\<in>set (rows ?df).
          (map_of m l = Some True) =
          (\<exists>nearby\<in>set (neighbours loc_key). str_contains nearby (cell r ''Area''))"
    using mval all_false_lookup [OF af] assms(5) by auto
  have sel: "(case (if \<not> mask_any direct then
                  (case map_of nearby_areas (lower loc_key) of
                     Some nearby_list \<Rightarrow>
                       or_matches ?df (map (\<lambda>nearby. (''Area'', nearby)) nearby_list) direct
                   | None \<Rightarrow> Inr direct)
                else Inr direct) of
            Inl e \<Rightarrow> Inl e
          | Inr location_matches \<Rightarrow> df_filter ?df location_matches) = df_filter ?df m"
    using nany m by (auto simp: neighbours_def split: option.splits)
  have "area_stage ?df loc_key = df_filter ?df m"
    unfolding area_stage_def using direct sel by simp
  also have "\<dots> = Inr (?df\<lparr>rows :=
            filter (\<lambda>(l, r). \<exists>nearby\<in>set (neighbours loc_key). str_contains nearby (cell r ''Area''))
              (rows ?df)\<rparr>)"
    using df_filter_full [OF mfull mval'] .
  finally show ?thesis using stage by simp
qed


theorem adjacency_fallback_witness:
  "location_stage ''find_clinic'' example_clinics ''Bedok''
     = Inr (example_clinics\<lparr>rows := [rows example_clinics ! 1]\<rparr>)
   \<and> search zero_scorers (Some example_clinics) (Some example_doctors)
        (Some (query ''find_clinic'' [] [] [] ''Bedok''))
     = Inr ([snd (rows example_clinics ! 1)], Plan (query ''find_clinic'' [] [] [] ''Bedok''))"
proof -
  have h1: "distinct (labels example_clinics)"
    by (simp add: labels_def example_clinics_def)
  have h2: "''Bedok'' \<noteq> []" and h3: "\<not> (isdigit ''Bedok'' \<and> length ''Bedok'' = 6)"
    and h4: "regex_literal ''Bedok''"
    and h5: "''Area'' \<in> set (columns example_clinics)"
    by (simp_all add: regex_literal_def example_clinics_def)
  have h6: "\<forall>(l, r)\<in>set (rows example_clinics).
           \<not> str_contains ''Bedok'' (cell r ''Area'')
         \<and> (''Address'' \<in> set (columns example_clinics)
              \<longrightarrow> \<not> str_contains ''Bedok'' (cell r ''Address''))"
    by (simp add: example_clinics_def mk_row_def cell_def str_contains_def lower_def)
  have nb: "neighbours ''Bedok'' = [''tampines'', ''pasir ris'', ''changi'']"
    by (simp add: neighbours_def nearby_areas_def lower_def)
  have stage: "location_stage ''find_clinic'' example_clinics ''Bedok''
     = Inr (example_clinics\<lparr>rows := [rows example_clinics ! 1]\<rparr>)"
    unfolding adjacency_fallback [OF h1 h2 h3 h4 h5 h6] nb
    by (simp add: example_clinics_def mk_row_def cell_def str_contains_def lower_def)
  have pipe: "filter_pipeline (query ''find_clinic'' [] [] [] ''Bedok'') example_clinics
     = location_stage ''find_clinic'' example_clinics ''Bedok''"
    by (simp add: filter_pipeline_def query_def language_stage_def)
  have "search zero_scorers (Some example_clinics) (Some example_doctors)
        (Some (query ''find_clinic'' [] [] [] ''Bedok''))
     = Inr ([snd (rows example_clinics ! 1)], Plan (query ''find_clinic'' [] [] [] ''Bedok''))"
    unfolding search_def using pipe stage
    by (simp add: query_def rank_def rank_clinics_def df_empty_def example_clinics_def
          mk_row_def cell_def lower_def)
  with stage show ?thesis by blast
qed

subsection \<open>The pediatric fallback\<close>

lemma meta_not_letter:
  "c \<in> set [CHR ''.'', CHR ''^'', CHR ''$'', CHR ''*'', CHR ''+'', CHR ''?'',
       CHR ''{'', CHR ''}'', CHR ''['', CHR '']'', CHR 0x5C, CHR ''|'', CHR ''('', CHR '')'']
   \<Longrightarrow> py_lower_char c \<notin> set ''paediatric''"
  by auto

lemma pediatric_literal:
  assumes "lower s \<in> set [''paediatric'', ''pediatric'']"
  shows "regex_literal s"
proof -
  have "py_lower_char c \<in> set ''paediatric''" if "c \<in> set s" for c
  proof -
    from that have "py_lower_char c \<in> set (lower s)" by (simp add: lower_def)
    with assms show ?thesis by auto
  qed
  then show ?thesis
    unfolding regex_literal_def list_all_iff using meta_not_letter by blast
qed

lemma fallbacks_literal: "list_all regex_literal fallback_specialties"
  by (simp add: fallback_specialties_def regex_literal_def)


text \<open>
  C1, as amended. When the filter value after the correction table is paediatric or
  pediatric in any letter case, and the frame carries the labels 0, 1, 2, ... of a
  loaded dataset, the stage keeps the rows whose Specialty column contains one of the
  four fallback specialties, letter case ignored; Designation and Services are not
  consulted. Only when no row is kept does it return the rows of the dataset that
  contain the filter value itself in Specialty, Designation or Services.
\<close>

theorem pediatric_fallback:
  assumes "labels target_df = [0..<length (rows target_df)]"
    and "lower (corrected_specialty raw) \<in> set [''paediatric'', ''pediatric'']"
  shows "specialty_stage target_df raw =
     Inr (let hits = filter (\<lambda>(l, r). ''Specialty'' \<in> set (columns target_df)
                         \<and> (\<exists>fallback\<in>set fallback_specialties.
                               str_contains fallback (cell r ''Specialty'')))
                       (rows target_df)
          in if hits \<noteq> [] then target_df\<lparr>rows := hits\<rparr>
             else target_df\<lparr>rows :=
                    filter (\<lambda>(l, r). \<exists>col\<in>set search_columns. col \<in> set (columns target_df)
                              \<and> str_contains (corrected_specialty raw) (cell r col))
                      (rows target_df)\<rparr>)"
proof -
  let ?df = target_df
  let ?n = "length (rows ?df)"
  let ?sf = "corrected_specialty raw"
  let ?P = "\<lambda>(l::nat) r. ''Specialty'' \<in> set (columns ?df)
              \<and> (\<exists>fallback\<in>set fallback_specialties. str_contains fallback (cell r ''Specialty''))"
  let ?Q = "\<lambda>(l::nat) r. \<exists>col\<in>set search_columns. col \<in> set (columns ?df)
              \<and> str_contains ?sf (cell r col)"
  let ?hits = "filter (\<lambda>(l, r). ?P l r) (rows ?df)"
  let ?fpairs = "map (\<lambda>fallback. (''Specialty'', fallback)) fallback_specialties"
  let ?spairs = "map (\<lambda>col. (col, ?sf)) search_columns"
  have d: "distinct (labels ?df)" using assms(1) by simp
  have len: "length (labels ?df) = ?n" by (simp add: labels_def)
  have full0: "\<forall>l\<in>set (labels ?df). map_of (series_false ?n) l \<noteq> None"
    using assms(1) by (simp add: map_of_series_false)
  have nt: "map_of (series_false ?n) l \<noteq> Some True" for l
    by (simp add: map_of_series_false)
  have flit: "\<forall>(col, pat)\<in>set ?fpairs. regex_literal pat"
    using fallbacks_literal by (auto simp: list_all_iff)
  have slit: "\<forall>(col, pat)\<in>set ?spairs. regex_literal pat"
    using pediatric_literal [OF assms(2)] by auto
  from or_matches_full [OF d flit full0] obtain fm where
    fm: "or_matches ?df ?fpairs (series_false ?n) = Inr fm"
    and fmfull: "\<forall>l\<in>set (labels ?df). map_of fm l \<noteq> None"
    and fmval: "\<forall>(l, r)\<in>set (rows ?df).
          (map_of fm l = Some True) =
          (map_of (series_false ?n) l = Some True
           \<or> (\<exists>(col, pat)\<in>set ?fpairs. col \<in> set (columns ?df) \<and> str_contains pat (cell r col)))"
    by blast
  have fmval': "\<forall>(l, r)\<in>set (rows ?df). (map_of fm l = Some True) = ?P l r"
    using fmval nt by auto
  have first: "df_filter ?df fm = Inr (?df\<lparr>rows := ?hits\<rparr>)"
    using df_filter_full [OF fmfull fmval'] .
  from or_matches_full [OF d slit full0] obtain sm where
    sm: "or_matches ?df ?spairs (series_false ?n) = Inr sm"
    and smfull: "\<forall>l\<in>set (labels ?df). map_of sm l \<noteq> None"
    and smval: "\<forall>(l, r)\<in>set (rows ?df).
          (map_of sm l = Some True) =
          (map_of (series_false ?n) l = Some True
           \<or> (\<exists>(col, pat)\<in>set ?spairs. col \<in> set (columns ?df) \<and> str_contains pat (cell r col)))"
    by blast
  have smval': "\<forall>(l, r)\<in>set (rows ?df). (map_of sm l = Some True) = ?Q l r"
    using smval nt by auto
  have second: "df_filter ?df sm = Inr (?df\<lparr>rows := filter (\<lambda>(l, r). ?Q l r) (rows ?df)\<rparr>)"
    using df_filter_full [OF smfull smval'] .
  have emp: "df_empty (?df\<lparr>rows := ?hits\<rparr>) = (?hits = [])"
  proof (cases "?hits = []")
    case True
    then show ?thesis by (simp add: df_empty_def)
  next
    case False
    then obtain x where "x \<in> set ?hits" by (meson last_in_set)
    then have "''Specialty'' \<in> set (columns ?df)" by auto
    then have "columns ?df \<noteq> []" by auto
    with False show ?thesis by (simp add: df_empty_def)
  qed
  show ?thesis
    unfolding specialty_stage_def Let_def
    using assms(2) fm first sm second emp by simp
qed


text \<open>
  A doctor whose Services mention General Medicine, but whose Specialty is Cardiology,
  is dropped, although the wording of C1 would keep that row.
\<close>

lemma pediatric_example_run:
  "specialty_stage pediatric_example ''paediatric''
     = Inr (pediatric_example\<lparr>rows := [rows pediatric_example ! 1]\<rparr>)"
  by (simp add: specialty_stage_def corrected_specialty_def specialty_corrections_def
        fallback_specialties_def search_columns_def pediatric_example_def mk_row_def
        col_contains_def regex_literal_def series_false_def mask_or_def df_filter_def
        labels_def df_empty_def cell_def str_contains_def lower_def)
     blast

theorem pediatric_fallback_counterexample:
  "specialty_stage pediatric_example ''paediatric''
     \<noteq> Inr (claimed_pediatric_stage pediatric_example)"
proof -
  have "claimed_pediatric_stage pediatric_example = pediatric_example"
    by (simp add: claimed_pediatric_stage_def fallback_specialties_def search_columns_def
          pediatric_example_def mk_row_def cell_def str_contains_def lower_def)
  moreover have "pediatric_example\<lparr>rows := [rows pediatric_example ! 1]\<rparr> \<noteq> pediatric_example"
    by (simp add: pediatric_example_def)
  ultimately show ?thesis using pediatric_example_run by simp
qed

theorem pediatric_fallback_witness:
  "specialty_stage pediatric_example ''paediatric''
     = Inr (pediatric_example\<lparr>rows := [rows pediatric_example ! 1]\<rparr>)"
proof -
  have h1: "labels pediatric_example = [0..<length (rows pediatric_example)]"
    by (simp add: labels_def pediatric_example_def upt_rec)
  have h2: "lower (corrected_specialty ''paediatric'') \<in> set [''paediatric'', ''pediatric'']"
    by (simp add: corrected_specialty_def specialty_corrections_def lower_def)
  show ?thesis
    unfolding pediatric_fallback [OF h1 h2]
    by (simp add: fallback_specialties_def pediatric_example_def mk_row_def cell_def
          str_contains_def lower_def)
qed

subsection \<open>The doctor name search\<close>

lemma set_update_subset: "set (AList.update k v al) \<subseteq> insert (k, v) (set al)"
  by (induction al) auto

lemma process_extract_placed:
  "(name, score, idx) \<in> set (process_extract f q names limit) \<Longrightarrow> placed names name idx"
proof -
  assume "(name, score, idx) \<in> set (process_extract f q names limit)"
  then have "(name, score, idx) \<in> set (map (\<lambda>(idx, name). (name, f q name, idx)) (enumerate 0 names))"
    unfolding process_extract_def using in_set_takeD by fastforce
  then have "(idx, name) \<in> set (enumerate 0 names)" by auto
  then show ?thesis by (simp add: placed_def in_set_enumerate_eq)
qed

lemma multi_word_placed:
  "(name, score, idx) \<in> set (multi_word_matches f q names) \<Longrightarrow> placed names name idx"
proof -
  assume "(name, score, idx) \<in> set (multi_word_matches f q names)"
  then have "(idx, name) \<in> set (enumerate 0 names)"
    unfolding multi_word_matches_def Let_def by (auto split: if_splits)
  then show ?thesis by (simp add: placed_def in_set_enumerate_eq)
qed

lemma fuse_one_placed:
  assumes "fused_placed names all_matches" and "placed names (fst m) (snd (snd m))"
  shows "fused_placed names (fuse_one st all_matches m)"
proof -
  obtain name score idx where m: "m = (name, score, idx)" by (cases m)
  have up: "fused_placed names (AList.update name (w, idx, s) all_matches)" for w s
    using assms set_update_subset [of name "(w, idx, s)" all_matches] m
    unfolding fused_placed_def by fastforce
  show ?thesis
    using assms(1) m up by (auto simp: fuse_one_def Let_def split: option.splits)
qed

lemma fuse_matches_placed:
  assumes "fused_placed names all_matches"
    and "\<forall>(name, score, idx)\<in>set ms. placed names name idx"
  shows "fused_placed names (foldl (fuse_one st) all_matches ms)"
  using assms
proof (induction ms arbitrary: all_matches)
  case Nil
  then show ?case by simp
next
  case (Cons m ms)
  have "placed names (fst m) (snd (snd m))" using Cons.prems(2) by (cases m) auto
  then have "fused_placed names (fuse_one st all_matches m)"
    using Cons.prems(1) fuse_one_placed by blast
  then show ?case using Cons.IH Cons.prems(2) by simp
qed

lemma fuse_placed:
  assumes "\<forall>(st, ms)\<in>set runs. \<forall>(name, score, idx)\<in>set ms. placed names name idx"
    and "fused_placed names start"
  shows "fused_placed names (foldl (\<lambda>all_matches (strategy_name, matches).
                      foldl (fuse_one strategy_name) all_matches matches) start runs)"
  using assms
proof (induction runs arbitrary: start)
  case Nil
  then show ?case by simp
next
  case (Cons run runs)
  obtain st ms where run: "run = (st, ms)" by (cases run)
  have "fused_placed names (foldl (fuse_one st) start ms)"
    using fuse_matches_placed [OF Cons.prems(2)] Cons.prems(1) run by auto
  then show ?case using Cons.IH Cons.prems(1) run by simp
qed

lemma all_matches_placed: "fused_placed names (all_matches_of sc kws names)"
proof -
  have "fused_placed names []" by (simp add: fused_placed_def)
  then show ?thesis
    unfolding all_matches_of_def fuse_def
    by (intro fuse_placed) (auto dest: process_extract_placed multi_word_placed)
qed

lemma sorted_matches_placed:
  assumes "fused_placed names all_matches" and "(name, score, idx) \<in> set (sorted_matches all_matches)"
  shows "placed names name idx"
  using assms unfolding sorted_matches_def fused_placed_def by fastforce

lemma final_matches_subset:
  "set (final_matches kws all_matches) \<subseteq> set (sorted_matches all_matches)"
  unfolding final_matches_def exact_matches_def fuzzy_matches_def Let_def
  by (auto dest: in_set_takeD)

lemma iloc_all_map:
  "\<forall>(name, score, idx)\<in>set ms. idx < length rs \<Longrightarrow>
   iloc_all rs ms = Inr (map (\<lambda>(name, score, idx). rs ! idx) ms)"
  by (induction rs ms rule: iloc_all.induct) auto

lemma containment_scan_length:
  "length results < 10 \<Longrightarrow> length (containment_scan kws rs results) \<le> 10"
  by (induction kws rs results rule: containment_scan.induct) auto


lemma no_names_no_matches: "all_matches_of sc kws [] = []"
  by (simp add: all_matches_of_def fuse_def process_extract_def multi_word_matches_def)

text \<open>
  C2, as amended. For a doctor query with a keyword longer than one character, on a
  frame with a Name column and for any four scorers: the name search returns at most
  5 rows whenever the fused selection is not empty, and at most 10 rows, from the
  containment scan, when it is empty. Whenever the exact tier of the fused candidates
  has at least 3 entries, the result is the rows of the first five entries of that
  tier, so the Name of every returned row passes the exact test.
\<close>

theorem name_search_bounds:
  assumes "intent p \<noteq> ''find_clinic''" and "1 < length (keyword p)"
    and "''Name'' \<in> set (columns filtered_df)"
  shows "\<exists>results. rank sc p filtered_df = Inr results
     \<and> length results \<le> 10
     \<and> (final_matches (keyword p) (all_matches_of sc (keyword p) (name_column filtered_df)) \<noteq> []
          \<longrightarrow> length results \<le> 5)
     \<and> (3 \<le> length (exact_matches (keyword p)
                        (all_matches_of sc (keyword p) (name_column filtered_df)))
          \<longrightarrow> results = map (\<lambda>(name, score, idx). map snd (rows filtered_df) ! idx)
                          (take 5 (exact_matches (keyword p)
                             (all_matches_of sc (keyword p) (name_column filtered_df))))
              \<and> (\<forall>r\<in>set results. is_exact (keyword p) (cell r ''Name'')))"
proof (cases "rows filtered_df = []")
  case True
  then have "rank sc p filtered_df = Inr []" by (simp add: rank_def df_empty_def)
  moreover have "all_matches_of sc (keyword p) (name_column filtered_df) = []"
    using True by (simp add: name_column_def no_names_no_matches)
  ultimately show ?thesis
    by (simp add: exact_matches_def final_matches_def fuzzy_matches_def sorted_matches_def)
next
  case False
  let ?kw = "keyword p"
  let ?rs = "map snd (rows filtered_df)"
  let ?names = "name_column filtered_df"
  let ?all = "all_matches_of sc ?kw ?names"
  let ?final = "final_matches ?kw ?all"
  let ?exact = "exact_matches ?kw ?all"
  let ?pick = "\<lambda>(name, score, idx). ?rs ! idx"
  have names: "map (\<lambda>r. cell r ''Name'') ?rs = ?names" by (simp add: name_column_def)
  have len: "length ?names = length ?rs" by (simp add: name_column_def)
  have ne: "\<not> df_empty filtered_df" using False assms(3) by (auto simp: df_empty_def)
  have placed_sorted: "placed ?names name idx"
    if "(name, score, idx) \<in> set (sorted_matches ?all)" for name score idx
    using sorted_matches_placed [OF all_matches_placed that] .
  have inrange: "\<forall>(name, score, idx)\<in>set (take 5 ?final). idx < length ?rs"
  proof -
    have "idx < length ?rs" if "(name, score, idx) \<in> set (take 5 ?final)" for name score idx
    proof -
      from that have "(name, score, idx) \<in> set (sorted_matches ?all)"
        using final_matches_subset in_set_takeD by fastforce
      from placed_sorted [OF this] len show ?thesis by (simp add: placed_def)
    qed
    then show ?thesis by auto
  qed
  have pick: "iloc_all ?rs (take 5 ?final) = Inr (map ?pick (take 5 ?final))"
    using iloc_all_map [OF inrange] .
  let ?results = "if ?final = [] then containment_scan ?kw ?rs [] else map ?pick (take 5 ?final)"
  have kwne: "?kw \<noteq> []" using assms(2) by auto
  have r1: "rank sc p filtered_df = fuzzy_name_search sc ?kw filtered_df"
    using assms(1,2) ne kwne by (simp add: rank_def)
  have r2: "fuzzy_name_search sc ?kw filtered_df =
      (case iloc_all ?rs (take 5 ?final) of
         Inl e \<Rightarrow> Inl e
       | Inr results \<Rightarrow>
           if results = [] then Inr (containment_scan ?kw ?rs []) else Inr results)"
    using assms(3) by (simp add: fuzzy_name_search_def Let_def name_column_def)
  have run: "rank sc p filtered_df = Inr ?results"
    unfolding r1 r2 pick by simp
  have short: "length (map ?pick (take 5 ?final)) \<le> 5" by simp
  have bound10: "length ?results \<le> 10"
  proof (cases "?final = []")
    case True
    then show ?thesis using containment_scan_length [of "[]" ?kw ?rs] by simp
  next
    case False
    then show ?thesis using short by (simp del: length_map length_take)
  qed
  have bound5: "?final \<noteq> [] \<longrightarrow> length ?results \<le> 5" using short by simp
  have tier: "?results = map ?pick (take 5 ?exact)
              \<and> (\<forall>r\<in>set ?results. is_exact ?kw (cell r ''Name''))"
    if three: "3 \<le> length ?exact"
  proof -
    have fin: "?final = take 5 ?exact" using three by (simp add: final_matches_def)
    have nonempty: "?final \<noteq> []" using three fin by auto
    have res: "?results = map ?pick (take 5 ?exact)" using fin nonempty by simp
    have "is_exact ?kw (cell r ''Name'')" if "r \<in> set (map ?pick (take 5 ?exact))" for r
    proof -
      from that obtain name score idx where m: "(name, score, idx) \<in> set (take 5 ?exact)"
        and r: "r = ?rs ! idx" by auto
      from m have ex: "(name, score, idx) \<in> set ?exact" by (rule in_set_takeD)
      then have e: "is_exact ?kw name" and s: "(name, score, idx) \<in> set (sorted_matches ?all)"
        by (auto simp: exact_matches_def)
      from placed_sorted [OF s] have "idx < length ?rs" and "?names ! idx = name"
        using len by (simp_all add: placed_def)
      then have "cell (?rs ! idx) ''Name'' = name"
        by (simp add: name_column_def)
      with e r show ?thesis by simp
    qed
    with res show ?thesis by simp
  qed
  show ?thesis
    apply (rule exI [of _ ?results])
    using run bound10 bound5 tier by blast
qed


text \<open>
  Six names that contain ow inside a word, searched with the keyword OW. The name
  and the keyword have no character in common, so the library scores every pair 0 (it
  compares the texts as they are); the per-word strategy skips the two-letter word.
  Nothing is fused, and the containment scan, which ignores letter case, returns all
  six rows.
\<close>

lemma fallback_example_no_matches:
  "all_matches_of zero_scorers ''OW'' (name_column fallback_example) = []"
  by (simp add: all_matches_of_def fuse_def process_extract_def multi_word_matches_def
        zero_scorers_def name_column_def fallback_example_def mk_row_def cell_def
        fuse_one_def enumerate_eq_zip upt_rec split_def lower_def is_space_def
        best_word_score_def list_min_def Let_def)

theorem name_search_bounds_counterexample:
  "rank zero_scorers (query ''find_doctor'' ''OW'' [] [] []) fallback_example
     = Inr (map snd (rows fallback_example))
   \<and> length (map snd (rows fallback_example)) = 6"
proof -
  have "final_matches ''OW'' [] = []"
    by (simp add: final_matches_def exact_matches_def fuzzy_matches_def sorted_matches_def)
  then have "fuzzy_name_search zero_scorers ''OW'' fallback_example
      = Inr (containment_scan ''OW'' (map snd (rows fallback_example)) [])"
    using fallback_example_no_matches
    by (simp add: fuzzy_name_search_def name_column_def Let_def fallback_example_def)
  moreover have "containment_scan ''OW'' (map snd (rows fallback_example)) []
      = map snd (rows fallback_example)"
    by (simp add: fallback_example_def mk_row_def cell_def lower_def)
  ultimately show ?thesis
    by (simp add: rank_def query_def df_empty_def fallback_example_def)
qed

lemma low_example_matches:
  "all_matches_of zero_scorers ''low'' (name_column low_example)
     = [(''Low Huey Moon'', 104, 0, 80), (''Low Kim Seng'', 104, 1, 80),
        (''Low Ah Kow'', 104, 3, 80)]"
  by (simp add: all_matches_of_def fuse_def process_extract_def multi_word_matches_def
        zero_scorers_def name_column_def low_example_def mk_row_def cell_def
        fuse_one_def weighted_def enumerate_eq_zip upt_rec split_def lower_def is_space_def
        best_word_score_def list_min_def Let_def)

lemma low_example_exact:
  "exact_matches ''low'' (all_matches_of zero_scorers ''low'' (name_column low_example))
     = [(''Low Huey Moon'', 104, 0), (''Low Kim Seng'', 104, 1), (''Low Ah Kow'', 104, 3)]"
  unfolding low_example_matches
  by (simp add: exact_matches_def sorted_matches_def is_exact_def split_def lower_def
        is_space_def)

theorem name_search_bounds_witness:
  "rank zero_scorers (query ''find_doctor'' ''low'' [] [] []) low_example
     = Inr [snd (rows low_example ! 0), snd (rows low_example ! 1), snd (rows low_example ! 3)]
   \<and> list_all (\<lambda>r. is_exact ''low'' (cell r ''Name''))
        [snd (rows low_example ! 0), snd (rows low_example ! 1), snd (rows low_example ! 3)]"
proof -
  let ?p = "query ''find_doctor'' ''low'' [] [] []"
  have h1: "intent ?p \<noteq> ''find_clinic''" and h2: "1 < length (keyword ?p)"
    and h3: "''Name'' \<in> set (columns low_example)"
    by (simp_all add: query_def low_example_def)
  have kw: "keyword ?p = ''low''" by (simp add: query_def)
  have three: "3 \<le> length (exact_matches (keyword ?p)
       (all_matches_of zero_scorers (keyword ?p) (name_column low_example)))"
    unfolding kw low_example_exact by simp
  from name_search_bounds [OF h1 h2 h3, of zero_scorers] three obtain results where
    run: "rank zero_scorers ?p low_example = Inr results"
    and res: "results = map (\<lambda>(name, score, idx). map snd (rows low_example) ! idx)
                (take 5 (exact_matches (keyword ?p)
                   (all_matches_of zero_scorers (keyword ?p) (name_column low_example))))"
    and tier: "\<forall>r\<in>set results. is_exact (keyword ?p) (cell r ''Name'')"
    by blast
  have val: "results = [snd (rows low_example ! 0), snd (rows low_example ! 1),
                        snd (rows low_example ! 3)]"
    unfolding res kw low_example_exact by (simp add: low_example_def)
  from tier val kw have "list_all (\<lambda>r. is_exact ''low'' (cell r ''Name''))
        [snd (rows low_example ! 0), snd (rows low_example ! 1), snd (rows low_example ! 3)]"
    by (simp add: list_all_iff)
  with run val show ?thesis by simp
qed

subsection \<open>Missing columns and repeated filtering\<close>

lemma ex_bool: "\<exists>y. y" "\<exists>y. \<not> y"
  by blast+

lemmas stage_defs = ex_bool Let_def
  filter_pipeline_def specialty_stage_def language_stage_def location_stage_def
  area_stage_def doctor_location_stage_def corrected_specialty_def specialty_corrections_def
  search_columns_def fallback_specialties_def nearby_areas_def
  col_contains_def regex_literal_def series_false_def mask_or_def mask_any_def df_filter_def
  labels_def df_empty_def cell_def str_contains_def lower_def isdigit_def is_digit_char_def
  query_def mk_row_def

text \<open>
  C7. The claim asks that a missing column only skips its stage and that \<open>search\<close>
  never raises. The language stage and the doctor location stage do test for their
  column, but the name search reads \<open>filtered_df['Name']\<close> without a test: a
  doctor query with the keyword low on a frame that has no Name column ends in
  \<open>KeyError\<close>.
\<close>

theorem missing_name_column_raises:
  "search sc (Some example_clinics) (Some nameless_doctors)
     (Some (query ''find_doctor'' ''low'' [] [] [])) = Inl (KeyError ''Name'')"
  by (simp add: search_def rank_def fuzzy_name_search_def nameless_doctors_def stage_defs)

text \<open>
  C8. The claim asks that filtering the output of the pipeline again changes nothing.
  The specialty filter Dental keeps the second of two doctors, under its label 1. On
  that output the mask \<open>pd.Series([False] * 1)\<close> carries the label 0 only, the first
  \<open>|\<close> is aligned by label and yields \<open>False\<close> at label 1, and the second pass
  returns no row.
\<close>

theorem pipeline_not_idempotent:
  "filter_pipeline (query ''find_doctor'' [] ''Dental'' [] []) example_doctors
     = Inr (example_doctors\<lparr>rows := [rows example_doctors ! 1]\<rparr>)
   \<and> filter_pipeline (query ''find_doctor'' [] ''Dental'' [] [])
       (example_doctors\<lparr>rows := [rows example_doctors ! 1]\<rparr>)
     = Inr (example_doctors\<lparr>rows := []\<rparr>)"
  by (simp add: example_doctors_def stage_defs)

text \<open>
  The same alignment within one call: once the language stage has dropped the first
  clinic, the area stage loses the match of the remaining one.
\<close>

lemma narrowed_frame_loses_area_match:
  "filter_pipeline (query ''find_clinic'' [] [] ''Mandarin'' ''Bedok'') language_clinics
     = Inr (language_clinics\<lparr>rows := []\<rparr>)"
  by (simp add: language_clinics_def stage_defs)

end
